theory Spec2Isabelle
  imports Main "HOL-Library.AList"
begin

section \<open>The Scoop: router and in-memory store of server.js\<close>

text \<open>
  A shallow embedding of \<^verbatim>\<open>server.js\<close>: the \<^verbatim>\<open>database\<close> object, the vote engine
  (\<^verbatim>\<open>upvote\<close>, \<^verbatim>\<open>downvote\<close>), the handlers of the \<^verbatim>\<open>routes\<close> table and
  \<^verbatim>\<open>getRequestRoute\<close>. The handlers mutate the module-level \<^verbatim>\<open>database\<close>; here each
  takes the database and returns the new one with its response.

  Conventions of the embedding.
  \<^item> A request body is a JSON object whose \<^verbatim>\<open>username\<close>, \<^verbatim>\<open>title\<close>, \<^verbatim>\<open>url\<close> and
    \<^verbatim>\<open>body\<close> fields are strings or absent and whose \<^verbatim>\<open>articleId\<close> is an integer or
    absent, or it is \<^verbatim>\<open>null\<close>.
  \<^item> A property of \<^verbatim>\<open>database.users\<close>, \<^verbatim>\<open>database.articles\<close> or
    \<^verbatim>\<open>database.comments\<close> is looked up among the object's own properties.
  \<^item> Ids and counters are JavaScript numbers holding integers; they are natural numbers
    here, exact as the source's are below \<open>2 ^ 53\<close>.
  \<^item> A handler with a \<^verbatim>\<open>:id\<close> route starts with
    \<^verbatim>\<open>const id = Number(url.split('/').filter(segment => segment)[1])\<close>. The handlers
    below take the value of that expression, a \<open>jsnum\<close>, as their first argument.
\<close>

subsection \<open>JavaScript values\<close>

text \<open>
  What \<^verbatim>\<open>Number(...)\<close> returns, as far as the handlers can tell one number from
  another: they test it for truthiness, use it as a property key and compare it to stored
  ids with \<^verbatim>\<open>===\<close>. \<open>NonInteger\<close> stands for every number that is neither \<^verbatim>\<open>NaN\<close>
  nor an integer (fractions, the infinities).
\<close>

datatype jsnum = NaN | Num int | NonInteger

definition truthy_num :: "jsnum \<Rightarrow> bool" where
  "truthy_num v = (case v of NaN \<Rightarrow> False | Num n \<Rightarrow> n \<noteq> 0 | NonInteger \<Rightarrow> True)"

text \<open>
  The property key a number selects, when that key can be the key of a stored record
  (records are stored under ids, which are counter values).
\<close>

definition key_of :: "jsnum \<Rightarrow> nat option" where
  "key_of v = (case v of Num n \<Rightarrow> (if 0 \<le> n then Some (nat n) else None) | _ \<Rightarrow> None)"

text \<open>
  The value of \<^verbatim>\<open>request.body && request.body.username\<close>: \<^verbatim>\<open>null\<close> for a
  \<^verbatim>\<open>null\<close> body, \<^verbatim>\<open>undefined\<close> for a body without the field, else the string.
\<close>

datatype jsname = Undefined | Null | Str string

text \<open>The property key \<^verbatim>\<open>database.users[username]\<close> reads.\<close>

definition prop_key :: "jsname \<Rightarrow> string" where
  "prop_key v = (case v of Undefined \<Rightarrow> ''undefined'' | Null \<Rightarrow> ''null'' | Str s \<Rightarrow> s)"

text \<open>A string field that is present and not empty (a truthy string).\<close>

definition truthy_str :: "string option \<Rightarrow> string option" where
  "truthy_str f = (case f of None \<Rightarrow> None | Some t \<Rightarrow> (if t = [] then None else Some t))"

text \<open>
  \<^verbatim>\<open>xs.splice(xs.indexOf(x), 1)\<close>: \<^verbatim>\<open>indexOf\<close> is the first index of \<open>x\<close>, or \<open>-1\<close>
  when \<open>x\<close> is not in the array, and \<^verbatim>\<open>splice(-1, 1)\<close> removes the last element.
\<close>

definition splice_indexOf :: "'a \<Rightarrow> 'a list \<Rightarrow> 'a list" where
  "splice_indexOf x xs = (if x \<in> set xs then remove1 x xs else butlast xs)"

subsection \<open>Data model\<close>

record votable =
  upvotedBy :: "jsname list"
  downvotedBy :: "jsname list"

record entity = votable +
  ident :: nat
  username :: string

text \<open>
  \<open>a_comments\<close> is the article's \<^verbatim>\<open>comments\<close> property: \<open>None\<close> while the object has
  no such property, else the array \<^verbatim>\<open>getArticle\<close> assigned. Its elements are references
  to comment objects; a reference is written as the key of \<^verbatim>\<open>database.comments\<close> the
  object was read from, and \<open>None\<close> where that read gave \<^verbatim>\<open>null\<close> or \<^verbatim>\<open>undefined\<close>.
\<close>

record article = entity +
  title :: string
  url :: string
  commentIds :: "nat list"
  a_comments :: "nat option list option"

record comment = entity +
  body :: string
  articleId :: nat

record user =
  u_username :: string
  articleIds :: "nat list"
  u_commentIds :: "nat list"

text \<open>
  A table of records under numeric keys; a key bound to \<open>None\<close> holds \<^verbatim>\<open>null\<close>
  (a deleted record).
\<close>

type_synonym 'v table = "(nat \<times> 'v option) list"

record database =
  users :: "(string \<times> user) list"
  articles :: "article table"
  nextArticleId :: nat
  comments :: "comment table"
  nextCommentId :: nat

definition database0 :: database where
  "database0 = \<lparr>users = [], articles = [], nextArticleId = 1, comments = [], nextCommentId = 1\<rparr>"

text \<open>\<^verbatim>\<open>table[k]\<close> when it is an object: neither \<^verbatim>\<open>undefined\<close> nor \<^verbatim>\<open>null\<close>.\<close>

definition live_at :: "'v table \<Rightarrow> nat \<Rightarrow> 'v option" where
  "live_at t k = (case map_of t k of Some (Some x) \<Rightarrow> Some x | _ \<Rightarrow> None)"

text \<open>The same for a key computed by \<^verbatim>\<open>Number\<close>; the key is returned with the object.\<close>

definition live :: "'v table \<Rightarrow> jsnum \<Rightarrow> (nat \<times> 'v) option" where
  "live t v = (case key_of v of None \<Rightarrow> None
     | Some k \<Rightarrow> (case live_at t k of None \<Rightarrow> None | Some x \<Rightarrow> Some (k, x)))"

subsection \<open>Requests and responses\<close>

record article_req =
  r_title :: "string option"
  r_url :: "string option"
  r_username :: "string option"

record comment_req =
  rc_body :: "string option"
  rc_username :: "string option"
  rc_articleId :: "int option"

record request_body =
  b_username :: "string option"
  b_article :: "article_req option"
  b_comment :: "comment_req option"

text \<open>\<open>None\<close> is a request whose body is \<^verbatim>\<open>null\<close>.\<close>

type_synonym request = "request_body option"

definition request_username :: "request \<Rightarrow> jsname" where
  "request_username request = (case request of None \<Rightarrow> Null
     | Some b \<Rightarrow> (case b_username b of None \<Rightarrow> Undefined | Some n \<Rightarrow> Str n))"

definition request_article :: "request \<Rightarrow> article_req option" where
  "request_article request = (case request of None \<Rightarrow> None | Some b \<Rightarrow> b_article b)"

definition request_comment :: "request \<Rightarrow> comment_req option" where
  "request_comment request = (case request of None \<Rightarrow> None | Some b \<Rightarrow> b_comment b)"

datatype payload =
    UserBody user
  | UserDetail user "article option list" "comment option list"
  | ArticlesBody "article list"
  | ArticleBody article
  | CommentBody comment

record response =
  status :: nat
  payload :: "payload option"

definition reply :: "nat \<Rightarrow> response" where
  "reply st = \<lparr>status = st, payload = None\<rparr>"

definition reply_with :: "nat \<Rightarrow> payload \<Rightarrow> response" where
  "reply_with st b = \<lparr>status = st, payload = Some b\<rparr>"

text \<open>An uncaught \<^verbatim>\<open>TypeError\<close>: a property read on \<^verbatim>\<open>null\<close> or \<^verbatim>\<open>undefined\<close>.\<close>

datatype js_error = TypeError

subsection \<open>Vote engine\<close>

definition upvote :: "'a votable_scheme \<Rightarrow> jsname \<Rightarrow> 'a votable_scheme" where
  "upvote item u =
     (let item1 = (if u \<in> set (downvotedBy item)
                   then item\<lparr>downvotedBy := splice_indexOf u (downvotedBy item)\<rparr> else item)
      in if u \<notin> set (upvotedBy item1)
         then item1\<lparr>upvotedBy := upvotedBy item1 @ [u]\<rparr> else item1)"

definition downvote :: "'a votable_scheme \<Rightarrow> jsname \<Rightarrow> 'a votable_scheme" where
  "downvote item u =
     (let item1 = (if u \<in> set (upvotedBy item)
                   then item\<lparr>upvotedBy := splice_indexOf u (upvotedBy item)\<rparr> else item)
      in if u \<notin> set (downvotedBy item1)
         then item1\<lparr>downvotedBy := downvotedBy item1 @ [u]\<rparr> else item1)"

subsection \<open>User handlers\<close>

definition getOrCreateUser :: "request \<Rightarrow> database \<Rightarrow> database \<times> response" where
  "getOrCreateUser request db =
     (let name = request_username request in
      case map_of (users db) (prop_key name) of
        Some found \<Rightarrow> (db, reply_with 200 (UserBody found))
      | None \<Rightarrow>
          (case name of
             Str n \<Rightarrow>
               (if n \<noteq> [] then
                  (let u = \<lparr>u_username = n, articleIds = [], u_commentIds = []\<rparr>
                   in (db\<lparr>users := AList.update n u (users db)\<rparr>, reply_with 201 (UserBody u)))
                else (db, reply 400))
           | _ \<Rightarrow> (db, reply 400)))"

text \<open>
  \<^verbatim>\<open>getUser\<close> reads the second path segment itself (no \<^verbatim>\<open>Number\<close>): its argument is
  that segment, \<open>None\<close> when the path has fewer than two.
\<close>

definition getUser :: "string option \<Rightarrow> database \<Rightarrow> database \<times> response" where
  "getUser name db =
     (case map_of (users db) (case name of None \<Rightarrow> ''undefined'' | Some n \<Rightarrow> n) of
        Some u \<Rightarrow>
          (db, reply_with 200
             (UserDetail u (map (live_at (articles db)) (articleIds u))
                           (map (live_at (comments db)) (u_commentIds u))))
      | None \<Rightarrow> (if truthy_str name \<noteq> None then (db, reply 404) else (db, reply 400)))"

subsection \<open>Article handlers\<close>

text \<open>
  \<^verbatim>\<open>Object.keys\<close> of a table: its keys, integer keys in ascending order.
\<close>

definition Object_keys :: "'v table \<Rightarrow> nat list" where
  "Object_keys t = sort (remdups (map fst t))"

definition getArticles :: "database \<Rightarrow> database \<times> response" where
  "getArticles db =
     (db, reply_with 200
        (ArticlesBody
           (sort_key (\<lambda>a. - int (ident a))
              (List.map_filter (live_at (articles db)) (Object_keys (articles db))))))"

definition getArticle :: "jsnum \<Rightarrow> database \<Rightarrow> database \<times> response" where
  "getArticle idn db =
     (case live (articles db) idn of
        Some (k, found) \<Rightarrow>
          (let a = found\<lparr>a_comments :=
                     Some (map (\<lambda>commentId. map_option (\<lambda>c. commentId)
                                  (live_at (comments db) commentId)) (commentIds found))\<rparr>
           in (db\<lparr>articles := AList.update k (Some a) (articles db)\<rparr>,
               reply_with 200 (ArticleBody a)))
      | None \<Rightarrow> (if truthy_num idn then (db, reply 404) else (db, reply 400)))"

definition createArticle :: "request \<Rightarrow> database \<Rightarrow> database \<times> response" where
  "createArticle request db =
     (case request_article request of
        None \<Rightarrow> (db, reply 400)
      | Some ra \<Rightarrow>
          (case (truthy_str (r_title ra), truthy_str (r_url ra), truthy_str (r_username ra)) of
             (Some t, Some u, Some n) \<Rightarrow>
               (case map_of (users db) n of
                  None \<Rightarrow> (db, reply 400)
                | Some author \<Rightarrow>
                    (let a = \<lparr>upvotedBy = [], downvotedBy = [], ident = nextArticleId db,
                              username = n, title = t, url = u, commentIds = [],
                              a_comments = None\<rparr>
                     in (db\<lparr>nextArticleId := nextArticleId db + 1,
                            articles := AList.update (ident a) (Some a) (articles db),
                            users := AList.update n
                              (author\<lparr>articleIds := articleIds author @ [ident a]\<rparr>) (users db)\<rparr>,
                         reply_with 201 (ArticleBody a))))
           | _ \<Rightarrow> (db, reply 400)))"

definition updateArticle :: "jsnum \<Rightarrow> request \<Rightarrow> database \<Rightarrow> database \<times> response" where
  "updateArticle idn request db =
     (case request_article request of
        None \<Rightarrow> (db, reply 400)
      | Some ra \<Rightarrow>
          (if \<not> truthy_num idn then (db, reply 400)
           else (case live (articles db) idn of
                   None \<Rightarrow> (db, reply 404)
                 | Some (k, saved) \<Rightarrow>
                     (let a = saved\<lparr>title := (case truthy_str (r_title ra) of
                                                  Some t \<Rightarrow> t | None \<Rightarrow> title saved),
                                     url := (case truthy_str (r_url ra) of
                                                  Some u \<Rightarrow> u | None \<Rightarrow> url saved)\<rparr>
                      in (db\<lparr>articles := AList.update k (Some a) (articles db)\<rparr>,
                          reply_with 200 (ArticleBody a))))))"

text \<open>
  The body of the \<^verbatim>\<open>forEach\<close> in \<^verbatim>\<open>deleteArticle\<close>, over the deleted article's
  \<^verbatim>\<open>commentIds\<close>; \<open>k\<close> is the article's id. The comment's slot is set to \<^verbatim>\<open>null\<close>, then
  the author's \<^verbatim>\<open>commentIds\<close> is spliced at \<^verbatim>\<open>indexOf(id)\<close>, the index of the
  article's id.
\<close>

fun cascade :: "nat \<Rightarrow> nat list \<Rightarrow> database \<Rightarrow> js_error + database" where
  "cascade k [] db = Inr db"
| "cascade k (commentId # rest) db =
     (case live_at (comments db) commentId of
        None \<Rightarrow> Inl TypeError
      | Some c \<Rightarrow>
          (case map_of (users db) (username c) of
             None \<Rightarrow> Inl TypeError
           | Some author \<Rightarrow>
               cascade k rest
                 (db\<lparr>comments := AList.update commentId None (comments db),
                     users := AList.update (username c)
                       (author\<lparr>u_commentIds := splice_indexOf k (u_commentIds author)\<rparr>)
                       (users db)\<rparr>)))"

definition deleteArticle :: "jsnum \<Rightarrow> database \<Rightarrow> js_error + database \<times> response" where
  "deleteArticle idn db =
     (case live (articles db) idn of
        None \<Rightarrow> Inr (db, reply 400)
      | Some (k, saved) \<Rightarrow>
          (case cascade k (commentIds saved)
                  (db\<lparr>articles := AList.update k None (articles db)\<rparr>) of
             Inl e \<Rightarrow> Inl e
           | Inr db1 \<Rightarrow>
               (case map_of (users db1) (username saved) of
                  None \<Rightarrow> Inl TypeError
                | Some author \<Rightarrow>
                    Inr (db1\<lparr>users := AList.update (username saved)
                               (author\<lparr>articleIds := splice_indexOf k (articleIds author)\<rparr>)
                               (users db1)\<rparr>,
                         reply 204))))"

definition upvoteArticle :: "jsnum \<Rightarrow> request \<Rightarrow> database \<Rightarrow> database \<times> response" where
  "upvoteArticle idn request db =
     (let name = request_username request in
      case live (articles db) idn of
        None \<Rightarrow> (db, reply 400)
      | Some (k, saved) \<Rightarrow>
          (case map_of (users db) (prop_key name) of
             None \<Rightarrow> (db, reply 400)
           | Some voter \<Rightarrow>
               (let a = upvote saved name
                in (db\<lparr>articles := AList.update k (Some a) (articles db)\<rparr>,
                    reply_with 200 (ArticleBody a)))))"

definition downvoteArticle :: "jsnum \<Rightarrow> request \<Rightarrow> database \<Rightarrow> database \<times> response" where
  "downvoteArticle idn request db =
     (let name = request_username request in
      case live (articles db) idn of
        None \<Rightarrow> (db, reply 400)
      | Some (k, saved) \<Rightarrow>
          (case map_of (users db) (prop_key name) of
             None \<Rightarrow> (db, reply 400)
           | Some voter \<Rightarrow>
               (let a = downvote saved name
                in (db\<lparr>articles := AList.update k (Some a) (articles db)\<rparr>,
                    reply_with 200 (ArticleBody a)))))"

subsection \<open>Comment handlers\<close>

definition createComment :: "request \<Rightarrow> database \<Rightarrow> database \<times> response" where
  "createComment request db =
     (case request_comment request of
        None \<Rightarrow> (db, reply 400)
      | Some rc \<Rightarrow>
          (case (truthy_str (rc_body rc), truthy_str (rc_username rc), rc_articleId rc) of
             (Some b, Some n, Some aid) \<Rightarrow>
               (case map_of (users db) n of
                  None \<Rightarrow> (db, reply 400)
                | Some author \<Rightarrow>
                    (if aid = 0 then (db, reply 400)
                     else (case live (articles db) (Num aid) of
                        None \<Rightarrow> (db, reply 400)
                      | Some (ak, parent) \<Rightarrow>
                          (let c = \<lparr>upvotedBy = [], downvotedBy = [], ident = nextCommentId db,
                                    username = n, body = b, articleId = ak\<rparr>
                           in (db\<lparr>nextCommentId := nextCommentId db + 1,
                                  comments := AList.update (ident c) (Some c) (comments db),
                                  users := AList.update n
                                    (author\<lparr>u_commentIds := u_commentIds author @ [ident c]\<rparr>)
                                    (users db),
                                  articles := AList.update ak
                                    (Some (parent\<lparr>commentIds := commentIds parent @ [ident c]\<rparr>))
                                    (articles db)\<rparr>,
                               reply_with 201 (CommentBody c))))))
           | _ \<Rightarrow> (db, reply 400)))"

definition updateComment :: "jsnum \<Rightarrow> request \<Rightarrow> database \<Rightarrow> database \<times> response" where
  "updateComment idn request db =
     (case request_comment request of
        None \<Rightarrow> (db, reply 400)
      | Some rc \<Rightarrow>
          (if \<not> truthy_num idn then (db, reply 400)
           else (case live (comments db) idn of
                   None \<Rightarrow> (db, reply 404)
                 | Some (k, saved) \<Rightarrow>
                     (let c = saved\<lparr>body := (case truthy_str (rc_body rc) of
                                                 Some b \<Rightarrow> b | None \<Rightarrow> body saved)\<rparr>
                      in (db\<lparr>comments := AList.update k (Some c) (comments db)\<rparr>,
                          reply_with 200 (CommentBody c))))))"

definition deleteComment :: "jsnum \<Rightarrow> database \<Rightarrow> js_error + database \<times> response" where
  "deleteComment idn db =
     (case live (comments db) idn of
        None \<Rightarrow> Inr (db, reply 404)
      | Some (k, saved) \<Rightarrow>
          (case map_of (users db) (username saved) of
             None \<Rightarrow> Inl TypeError
           | Some savedUser \<Rightarrow>
               (case live_at (articles db) (articleId saved) of
                  None \<Rightarrow> Inl TypeError
                | Some savedArticle \<Rightarrow>
                    Inr (db\<lparr>users := AList.update (username saved)
                               (savedUser\<lparr>u_commentIds :=
                                  filter (\<lambda>element. element \<noteq> k) (u_commentIds savedUser)\<rparr>)
                               (users db),
                            articles := AList.update (articleId saved)
                               (Some (savedArticle\<lparr>commentIds :=
                                  filter (\<lambda>element. element \<noteq> k) (commentIds savedArticle)\<rparr>))
                               (articles db),
                            comments := AList.update k None (comments db)\<rparr>,
                         reply 204))))"

definition upvoteComment :: "jsnum \<Rightarrow> request \<Rightarrow> database \<Rightarrow> database \<times> response" where
  "upvoteComment idn request db =
     (let name = request_username request in
      case live (comments db) idn of
        None \<Rightarrow> (db, reply 400)
      | Some (k, saved) \<Rightarrow>
          (case map_of (users db) (prop_key name) of
             None \<Rightarrow> (db, reply 400)
           | Some voter \<Rightarrow>
               (let c = upvote saved name
                in (db\<lparr>comments := AList.update k (Some c) (comments db)\<rparr>,
                    reply_with 200 (CommentBody c)))))"

definition downvoteComment :: "jsnum \<Rightarrow> request \<Rightarrow> database \<Rightarrow> database \<times> response" where
  "downvoteComment idn request db =
     (let name = request_username request in
      case live (comments db) idn of
        None \<Rightarrow> (db, reply 400)
      | Some (k, saved) \<Rightarrow>
          (case map_of (users db) (prop_key name) of
             None \<Rightarrow> (db, reply 400)
           | Some voter \<Rightarrow>
               (let c = downvote saved name
                in (db\<lparr>comments := AList.update k (Some c) (comments db)\<rparr>,
                    reply_with 200 (CommentBody c)))))"

subsection \<open>Route resolver\<close>

text \<open>\<^verbatim>\<open>s.split(sep)\<close> for a one-character separator.\<close>

fun split_on :: "char \<Rightarrow> string \<Rightarrow> string list" where
  "split_on sep [] = [[]]"
| "split_on sep (c # cs) =
     (if c = sep then [] # split_on sep cs
      else (case split_on sep cs of [] \<Rightarrow> [[c]] | w # ws \<Rightarrow> (c # w) # ws))"

text \<open>\<^verbatim>\<open>url.split('/').filter(segment => segment)\<close>: the empty string is falsy.\<close>

definition pathSegments :: "string \<Rightarrow> string list" where
  "pathSegments u = filter (\<lambda>segment. segment \<noteq> []) (split_on (CHR ''/'') u)"

text \<open>\<^verbatim>\<open>xs[i]\<close>, \<open>None\<close> for \<^verbatim>\<open>undefined\<close> past the end.\<close>

definition at_index :: "'a list \<Rightarrow> nat \<Rightarrow> 'a option" where
  "at_index xs i = (if i < length xs then Some (xs ! i) else None)"

text \<open>A string or \<^verbatim>\<open>undefined\<close> inside a template literal.\<close>

definition interpolate :: "string option \<Rightarrow> string" where
  "interpolate v = (case v of None \<Rightarrow> ''undefined'' | Some s \<Rightarrow> s)"

definition getRequestRoute :: "string \<Rightarrow> string" where
  "getRequestRoute u =
     (let segs = pathSegments u in
      if length segs = 1 then ''/'' @ interpolate (at_index segs 0)
      else if at_index segs 2 = Some ''upvote'' \<or> at_index segs 2 = Some ''downvote''
        then ''/'' @ interpolate (at_index segs 0) @ ''/:id/'' @ interpolate (at_index segs 2)
      else if at_index segs 0 = Some ''users''
        then ''/'' @ interpolate (at_index segs 0) @ ''/:username''
      else ''/'' @ interpolate (at_index segs 0) @ ''/:id'')"

subsection \<open>The path segment read as a number\<close>

text \<open>
  \<^verbatim>\<open>Number(segment)\<close> on the part of its domain that needs no floating-point parsing:
  \<^verbatim>\<open>undefined\<close> (no such segment) is \<^verbatim>\<open>NaN\<close>; a run of decimal digits below
  \<open>2 ^ 53\<close> is its value; a segment starting with a letter other than \<^verbatim>\<open>I\<close> is no
  numeric literal (such a literal starts with a digit, a sign, a dot or \<^verbatim>\<open>Infinity\<close>),
  so it is \<^verbatim>\<open>NaN\<close>. Elsewhere the result is \<open>None\<close>: not determined here.
\<close>

definition digit_of :: "char \<Rightarrow> nat option" where
  "digit_of c = (if c \<in> set ''0123456789'' then Some (of_char c - 48) else None)"

definition decimal :: "string \<Rightarrow> nat" where
  "decimal s = foldl (\<lambda>acc c. 10 * acc + (case digit_of c of Some d \<Rightarrow> d | None \<Rightarrow> 0)) 0 s"

definition Number_segment :: "string option \<Rightarrow> jsnum option" where
  "Number_segment seg =
     (case seg of
        None \<Rightarrow> Some NaN
      | Some s \<Rightarrow>
          (case s of
             [] \<Rightarrow> Some (Num 0)
           | c # cs \<Rightarrow>
               (if list_all (\<lambda>d. digit_of d \<noteq> None) s
                then (if decimal s < 2 ^ 53 then Some (Num (int (decimal s))) else None)
                else if c \<in> set ''abcdefghijklmnopqrstuvwxyzABCDEFGHJKLMNOPQRSTUVWXYZ''
                then Some NaN else None)))"

definition path_id :: "string \<Rightarrow> jsnum option" where
  "path_id u = Number_segment (at_index (pathSegments u) 1)"

subsection \<open>Requests as operations on the database\<close>

text \<open>
  One constructor for each entry of the \<^verbatim>\<open>routes\<close> table, with the arguments its handler
  reads. A handler that throws ends the process (nothing catches the exception), so a run
  of operations stops there.
\<close>

datatype op =
    GetOrCreateUser request
  | GetUser "string option"
  | GetArticles
  | CreateArticle request
  | GetArticle jsnum
  | UpdateArticle jsnum request
  | DeleteArticle jsnum
  | UpvoteArticle jsnum request
  | DownvoteArticle jsnum request
  | CreateComment request
  | UpdateComment jsnum request
  | DeleteComment jsnum
  | UpvoteComment jsnum request
  | DownvoteComment jsnum request

fun step :: "op \<Rightarrow> database \<Rightarrow> js_error + database \<times> response" where
  "step (GetOrCreateUser request) db = Inr (getOrCreateUser request db)"
| "step (GetUser name) db = Inr (getUser name db)"
| "step GetArticles db = Inr (getArticles db)"
| "step (CreateArticle request) db = Inr (createArticle request db)"
| "step (GetArticle idn) db = Inr (getArticle idn db)"
| "step (UpdateArticle idn request) db = Inr (updateArticle idn request db)"
| "step (DeleteArticle idn) db = deleteArticle idn db"
| "step (UpvoteArticle idn request) db = Inr (upvoteArticle idn request db)"
| "step (DownvoteArticle idn request) db = Inr (downvoteArticle idn request db)"
| "step (CreateComment request) db = Inr (createComment request db)"
| "step (UpdateComment idn request) db = Inr (updateComment idn request db)"
| "step (DeleteComment idn) db = deleteComment idn db"
| "step (UpvoteComment idn request) db = Inr (upvoteComment idn request db)"
| "step (DownvoteComment idn request) db = Inr (downvoteComment idn request db)"

text \<open>A run: the database after the operations answered, and each with its response.\<close>

fun exec :: "op list \<Rightarrow> database \<Rightarrow> database \<times> (op \<times> response) list" where
  "exec [] db = (db, [])"
| "exec (x # xs) db =
     (case step x db of
        Inl e \<Rightarrow> (db, [])
      | Inr (db1, r) \<Rightarrow> (case exec xs db1 of (db2, trace) \<Rightarrow> (db2, (x, r) # trace)))"

text \<open>The states of the database: the initial one and those any answered operation leaves.\<close>

inductive reachable :: "database \<Rightarrow> bool" where
  initial: "reachable database0"
| after: "reachable db \<Longrightarrow> step x db = Inr (db1, r) \<Longrightarrow> reachable db1"





subsection \<open>Invariants\<close>

text \<open>I3 on one entity: no username twice in a vote list, none in both.\<close>

definition votes_ok :: "'a votable_scheme \<Rightarrow> bool" where
  "votes_ok e \<longleftrightarrow> distinct (upvotedBy e) \<and> distinct (downvotedBy e) \<and>
     set (upvotedBy e) \<inter> set (downvotedBy e) = {}"


text \<open>
  A table whose keys are ids the counter has handed out, each record under its own id.
\<close>

definition table_ok :: "('v \<Rightarrow> nat) \<Rightarrow> 'v table \<Rightarrow> nat \<Rightarrow> bool" where
  "table_ok idf t n \<longleftrightarrow> 1 \<le> n \<and>
     (\<forall>k v. map_of t k = Some v \<longrightarrow> 1 \<le> k \<and> k < n \<and> (\<forall>x. v = Some x \<longrightarrow> idf x = k))"

definition ids_inv :: "database \<Rightarrow> bool" where
  "ids_inv db \<longleftrightarrow> table_ok ident (articles db) (nextArticleId db) \<and>
     table_ok ident (comments db) (nextCommentId db)"


text \<open>
  What a step may do to the two id-keyed tables: the counters do not decrease, no key
  leaves a table, and \<open>ids_inv\<close> is kept.
\<close>

definition grows :: "database \<Rightarrow> database \<Rightarrow> bool" where
  "grows db db1 \<longleftrightarrow>
     nextArticleId db \<le> nextArticleId db1 \<and> nextCommentId db \<le> nextCommentId db1 \<and>
     (\<forall>k. map_of (articles db) k \<noteq> None \<longrightarrow> map_of (articles db1) k \<noteq> None) \<and>
     (\<forall>k. map_of (comments db) k \<noteq> None \<longrightarrow> map_of (comments db1) k \<noteq> None) \<and>
     (ids_inv db \<longrightarrow> ids_inv db1)"

text \<open>
  A vote on the article (or comment) stored under \<open>k\<close>, as seen from outside that
  record: users, the other table and both counters as before, the same keys in the same
  order, every other record as before, and the record itself equal to the old one once
  its two vote lists are put back.
\<close>

definition article_frame :: "nat \<Rightarrow> article \<Rightarrow> database \<Rightarrow> database \<Rightarrow> bool" where
  "article_frame k e db db1 \<longleftrightarrow>
     users db1 = users db \<and> comments db1 = comments db \<and>
     nextArticleId db1 = nextArticleId db \<and> nextCommentId db1 = nextCommentId db \<and>
     map fst (articles db1) = map fst (articles db) \<and>
     (\<forall>j. j \<noteq> k \<longrightarrow> map_of (articles db1) j = map_of (articles db) j) \<and>
     (\<exists>e1. map_of (articles db1) k = Some (Some e1) \<and>
           e1\<lparr>upvotedBy := upvotedBy e, downvotedBy := downvotedBy e\<rparr> = e)"

definition comment_frame :: "nat \<Rightarrow> comment \<Rightarrow> database \<Rightarrow> database \<Rightarrow> bool" where
  "comment_frame k c db db1 \<longleftrightarrow>
     users db1 = users db \<and> articles db1 = articles db \<and>
     nextArticleId db1 = nextArticleId db \<and> nextCommentId db1 = nextCommentId db \<and>
     map fst (comments db1) = map fst (comments db) \<and>
     (\<forall>j. j \<noteq> k \<longrightarrow> map_of (comments db1) j = map_of (comments db) j) \<and>
     (\<exists>c1. map_of (comments db1) k = Some (Some c1) \<and>
           c1\<lparr>upvotedBy := upvotedBy c, downvotedBy := downvotedBy c\<rparr> = c)"

subsection \<open>Example requests\<close>

definition user_request :: "string \<Rightarrow> request" where
  "user_request n = Some \<lparr>b_username = Some n, b_article = None, b_comment = None\<rparr>"

definition article_request :: "string \<Rightarrow> string \<Rightarrow> string \<Rightarrow> request" where
  "article_request t u n =
     Some \<lparr>b_username = None,
           b_article = Some \<lparr>r_title = Some t, r_url = Some u, r_username = Some n\<rparr>,
           b_comment = None\<rparr>"

definition comment_request :: "string \<Rightarrow> string \<Rightarrow> int \<Rightarrow> request" where
  "comment_request b n aid =
     Some \<lparr>b_username = None, b_article = None,
           b_comment = Some \<lparr>rc_body = Some b, rc_username = Some n, rc_articleId = Some aid\<rparr>\<rparr>"

text \<open>A patch with an empty title and a new url.\<close>

definition patch_request :: request where
  "patch_request =
     Some \<lparr>b_username = None,
           b_article = Some \<lparr>r_title = Some [], r_url = Some ''http://new'', r_username = None\<rparr>,
           b_comment = None\<rparr>"

text \<open>Alice registers and posts an article; then she comments on it.\<close>

definition posted_ops :: "op list" where
  "posted_ops =
     [GetOrCreateUser (user_request ''alice''),
      CreateArticle (article_request ''T1'' ''http://x'' ''alice'')]"

definition commented_ops :: "op list" where
  "commented_ops = posted_ops @ [CreateComment (comment_request ''first'' ''alice'' 1)]"

text \<open>Three articles, the second of them deleted, and one more.\<close>

definition listing_ops :: "op list" where
  "listing_ops =
     [GetOrCreateUser (user_request ''alice''),
      CreateArticle (article_request ''T1'' ''http://x'' ''alice''),
      CreateArticle (article_request ''T2'' ''http://y'' ''alice''),
      CreateArticle (article_request ''T3'' ''http://z'' ''alice''),
      DeleteArticle (Num 2),
      CreateArticle (article_request ''T4'' ''http://w'' ''alice'')]"

text \<open>
  Alice posts two articles, comments on the second and then on the first, and the second
  article is deleted.
\<close>

definition cascade_ops :: "op list" where
  "cascade_ops =
     [GetOrCreateUser (user_request ''alice''),
      CreateArticle (article_request ''T1'' ''http://x'' ''alice''),
      CreateArticle (article_request ''T2'' ''http://y'' ''alice''),
      CreateComment (comment_request ''on the second'' ''alice'' 2),
      CreateComment (comment_request ''on the first'' ''alice'' 1),
      DeleteArticle (Num 2)]"

section \<open>Properties\<close>

subsection \<open>Route resolution\<close>

lemma split_on_no_sep: "s \<in> set (split_on sep u) \<Longrightarrow> sep \<notin> set s"
proof (induction u arbitrary: s)
  case Nil
  then show ?case by simp
next
  case (Cons c cs)
  show ?case
  proof (cases "c = sep")
    case True
    with Cons show ?thesis by auto
  next
    case False
    then show ?thesis
    proof (cases "split_on sep cs")
      case Nil
      with Cons False show ?thesis by auto
    next
      case (Cons w ws)
      with Cons.prems Cons.IH False show ?thesis by auto
    qed
  qed
qed

lemma pathSegments_nonempty: "s \<in> set (pathSegments u) \<Longrightarrow> s \<noteq> [] \<and> CHR ''/'' \<notin> set s"
  by (auto simp: pathSegments_def dest: split_on_no_sep)

text \<open>
  C6. For every path, the segments are non-empty and free of \<^verbatim>\<open>/\<close>, and the route is
  decided by four rules in order: exactly one segment gives \<^verbatim>\<open>/{segment}\<close>; else a third
  segment \<^verbatim>\<open>upvote\<close> or \<^verbatim>\<open>downvote\<close> gives \<^verbatim>\<open>/{segment0}/:id/{segment2}\<close>; else a
  first segment \<^verbatim>\<open>users\<close> gives \<^verbatim>\<open>/users/:username\<close>; else the route is
  \<^verbatim>\<open>/{segment0}/:id\<close>, where a path with no segment at all has \<^verbatim>\<open>undefined\<close> for
  segment0.
\<close>

theorem getRequestRoute_rules:
  "(\<forall>s \<in> set (pathSegments u). s \<noteq> [] \<and> CHR ''/'' \<notin> set s) \<and>
   (\<forall>s. pathSegments u = [s] \<longrightarrow> getRequestRoute u = ''/'' @ s) \<and>
   (\<forall>s0 s1 s2 rest. pathSegments u = s0 # s1 # s2 # rest \<and> (s2 = ''upvote'' \<or> s2 = ''downvote'')
       \<longrightarrow> getRequestRoute u = ''/'' @ s0 @ ''/:id/'' @ s2) \<and>
   (\<forall>rest. pathSegments u = ''users'' # rest \<and> rest \<noteq> [] \<and>
       at_index rest 1 \<noteq> Some ''upvote'' \<and> at_index rest 1 \<noteq> Some ''downvote''
       \<longrightarrow> getRequestRoute u = ''/users/:username'') \<and>
   (\<forall>s0 rest. pathSegments u = s0 # rest \<and> rest \<noteq> [] \<and> s0 \<noteq> ''users'' \<and>
       at_index rest 1 \<noteq> Some ''upvote'' \<and> at_index rest 1 \<noteq> Some ''downvote''
       \<longrightarrow> getRequestRoute u = ''/'' @ s0 @ ''/:id'') \<and>
   (pathSegments u = [] \<longrightarrow> getRequestRoute u = ''/undefined/:id'')"
proof (intro conjI allI impI ballI)
  fix s assume "s \<in> set (pathSegments u)"
  then show "s \<noteq> []" and "CHR ''/'' \<notin> set s"
    using pathSegments_nonempty by blast+
next
  fix s assume "pathSegments u = [s]"
  then show "getRequestRoute u = ''/'' @ s"
    by (simp add: getRequestRoute_def at_index_def interpolate_def)
next
  fix s0 s1 s2 rest
  assume "pathSegments u = s0 # s1 # s2 # rest \<and> (s2 = ''upvote'' \<or> s2 = ''downvote'')"
  then show "getRequestRoute u = ''/'' @ s0 @ ''/:id/'' @ s2"
    by (auto simp: getRequestRoute_def at_index_def interpolate_def)
next
  fix rest
  assume a: "pathSegments u = ''users'' # rest \<and> rest \<noteq> [] \<and>
       at_index rest 1 \<noteq> Some ''upvote'' \<and> at_index rest 1 \<noteq> Some ''downvote''"
  then have "at_index (pathSegments u) 2 = at_index rest 1"
    by (simp add: at_index_def)
  with a show "getRequestRoute u = ''/users/:username''"
    by (simp add: getRequestRoute_def interpolate_def at_index_def)
next
  fix s0 rest
  assume a: "pathSegments u = s0 # rest \<and> rest \<noteq> [] \<and> s0 \<noteq> ''users'' \<and>
       at_index rest 1 \<noteq> Some ''upvote'' \<and> at_index rest 1 \<noteq> Some ''downvote''"
  then have "at_index (pathSegments u) 2 = at_index rest 1"
    by (simp add: at_index_def)
  with a show "getRequestRoute u = ''/'' @ s0 @ ''/:id''"
    by (simp add: getRequestRoute_def interpolate_def at_index_def)
next
  assume "pathSegments u = []"
  then show "getRequestRoute u = ''/undefined/:id''"
    by (simp add: getRequestRoute_def at_index_def interpolate_def)
qed

theorem getRequestRoute_rules_witness:
  "pathSegments ''/articles/3/upvote'' = [''articles'', ''3'', ''upvote''] \<and>
   getRequestRoute ''/articles/3/upvote'' = ''/articles/:id/upvote'' \<and>
   pathSegments ''/users/alice'' = [''users'', ''alice''] \<and>
   getRequestRoute ''/users/alice'' = ''/users/:username'' \<and>
   pathSegments ''/comments/7'' = [''comments'', ''7''] \<and>
   getRequestRoute ''/comments/7'' = ''/comments/:id'' \<and>
   pathSegments ''/articles'' = [''articles''] \<and>
   getRequestRoute ''/articles'' = ''/articles'' \<and>
   pathSegments ''/'' = [] \<and>
   getRequestRoute ''/'' = ''/undefined/:id''"
proof -
  have s1: "pathSegments ''/articles/3/upvote'' = [''articles'', ''3'', ''upvote'']"
    and s2: "pathSegments ''/users/alice'' = [''users'', ''alice'']"
    and s3: "pathSegments ''/comments/7'' = [''comments'', ''7'']"
    and s4: "pathSegments ''/articles'' = [''articles'']"
    and s5: "pathSegments ''/'' = []"
    by (simp_all add: pathSegments_def)
  have a2: "at_index [''alice''] 1 \<noteq> Some ''upvote'' \<and> at_index [''alice''] 1 \<noteq> Some ''downvote''"
    and a3: "at_index [''7''] 1 \<noteq> Some ''upvote'' \<and> at_index [''7''] 1 \<noteq> Some ''downvote''"
    by (simp_all add: at_index_def)
  from getRequestRoute_rules [of "''/articles/3/upvote''"] s1
  have r1: "getRequestRoute ''/articles/3/upvote'' = ''/articles/:id/upvote''" by simp
  from getRequestRoute_rules [of "''/users/alice''"] s2 a2
  have r2: "getRequestRoute ''/users/alice'' = ''/users/:username''" by simp
  from getRequestRoute_rules [of "''/comments/7''"] s3 a3
  have r3: "getRequestRoute ''/comments/7'' = ''/comments/:id''" by simp
  from getRequestRoute_rules [of "''/articles''"] s4
  have r4: "getRequestRoute ''/articles'' = ''/articles''" by simp
  from getRequestRoute_rules [of "''/''"] s5
  have r5: "getRequestRoute ''/'' = ''/undefined/:id''" by simp
  from s1 s2 s3 s4 s5 r1 r2 r3 r4 r5 show ?thesis by simp
qed

subsection \<open>Tables\<close>

lemma live_at_update [simp]:
  "live_at (AList.update k v t) j = (if j = k then v else live_at t j)"
  by (cases v) (simp_all add: live_at_def update_conv')

lemma live_SomeD: "live t i = Some (k, x) \<Longrightarrow> key_of i = Some k \<and> live_at t k = Some x"
  by (auto simp: live_def split: option.splits)

lemma live_at_SomeD: "live_at t k = Some x \<Longrightarrow> map_of t k = Some (Some x)"
  by (auto simp: live_at_def split: option.splits)

lemma table_ok_new:
  "table_ok idf t n \<Longrightarrow> idf x = n \<Longrightarrow> table_ok idf (AList.update n (Some x) t) (Suc n)"
  unfolding table_ok_def update_conv' by (simp add: less_SucI)

lemma table_ok_more: "table_ok idf t n \<Longrightarrow> table_ok idf t (Suc n)"
  unfolding table_ok_def by (simp add: less_SucI)

lemma table_ok_put:
  "table_ok idf t n \<Longrightarrow> map_option idf (live_at t k) = Some (idf x) \<Longrightarrow>
   table_ok idf (AList.update k (Some x) t) n"
  by (auto simp: table_ok_def update_conv' live_at_def split: if_splits option.splits)

lemma table_ok_null:
  "table_ok idf t n \<Longrightarrow> live_at t k \<noteq> None \<Longrightarrow> table_ok idf (AList.update k None t) n"
  by (auto simp: table_ok_def update_conv' live_at_def split: if_splits option.splits)

lemma table_ok_map_of:
  "(\<And>j. map_of t1 j = (if j \<in> S then Some None else map_of t j)) \<Longrightarrow> (\<And>j. j \<in> S \<Longrightarrow> map_of t j \<noteq> None)
    \<Longrightarrow> table_ok idf t n \<Longrightarrow> table_ok idf t1 n"
  unfolding table_ok_def
  by (metis option.distinct(1) option.inject not_Some_eq)

lemma table_ok_ident:
  "table_ok idf t n \<Longrightarrow> live_at t k = Some y \<Longrightarrow> idf y = k \<and> 1 \<le> k \<and> k < n"
  by (auto simp: table_ok_def dest!: live_at_SomeD)



lemma live_truthy:
  assumes "table_ok idf t n" and "live t idn = Some (k, x)"
  shows "truthy_num idn"
proof -
  from assms(2) have k: "key_of idn = Some k" and l: "live_at t k = Some x"
    by (auto dest: live_SomeD)
  from table_ok_ident [OF assms(1) l] have "1 \<le> k" by simp
  with k show ?thesis
    by (cases idn) (auto simp: key_of_def truthy_num_def split: if_splits)
qed

lemma frame_update:
  "live_at t k = Some e \<Longrightarrow>
   map fst (AList.update k v t) = map fst t \<and>
   (\<forall>j. j \<noteq> k \<longrightarrow> map_of (AList.update k v t) j = map_of t j) \<and>
   map_of (AList.update k v t) k = Some v"
  by (auto simp: update_conv' update_keys dest!: live_at_SomeD map_of_SomeD intro: rev_image_eqI)

lemmas table_rules = table_ok_new table_ok_more table_ok_put table_ok_null update_conv'

subsection \<open>Vote engine\<close>

lemma upvote_lists:
  "downvotedBy (upvote e u) = remove1 u (downvotedBy e)"
  "upvotedBy (upvote e u) = (if u \<in> set (upvotedBy e) then upvotedBy e else upvotedBy e @ [u])"
  "votable.more (upvote e u) = votable.more e"
  by (simp_all add: upvote_def Let_def splice_indexOf_def remove1_idem)

lemma downvote_lists:
  "upvotedBy (downvote e u) = remove1 u (upvotedBy e)"
  "downvotedBy (downvote e u) = (if u \<in> set (downvotedBy e) then downvotedBy e else downvotedBy e @ [u])"
  "votable.more (downvote e u) = votable.more e"
  by (simp_all add: downvote_def Let_def splice_indexOf_def remove1_idem)



lemma votes_ok_new [simp]: "votes_ok \<lparr>upvotedBy = [], downvotedBy = [], \<dots> = m\<rparr>"
  by (simp add: votes_ok_def)

lemma votes_ok_article_update [simp]:
  "votes_ok (a\<lparr>a_comments := cs\<rparr>) = votes_ok a"
  "votes_ok (a\<lparr>title := t\<rparr>) = votes_ok a"
  "votes_ok (a\<lparr>url := w\<rparr>) = votes_ok a"
  "votes_ok (a\<lparr>commentIds := ids\<rparr>) = votes_ok a"
  by (simp_all add: votes_ok_def)

lemma votes_ok_comment_update [simp]: "votes_ok (c\<lparr>body := b\<rparr>) = votes_ok c"
  by (simp add: votes_ok_def)

lemma upvote_entity [simp]:
  "ident (upvote e u) = ident e" "username (upvote e u) = username e"
  by (simp_all add: upvote_def Let_def)

lemma downvote_entity [simp]:
  "ident (downvote e u) = ident e" "username (downvote e u) = username e"
  by (simp_all add: downvote_def Let_def)

lemma upvote_article [simp]:
  "title (upvote a u) = title a" "url (upvote a u) = url a"
  "commentIds (upvote a u) = commentIds a" "a_comments (upvote a u) = a_comments a"
  by (simp_all add: upvote_def Let_def)

lemma downvote_article [simp]:
  "title (downvote a u) = title a" "url (downvote a u) = url a"
  "commentIds (downvote a u) = commentIds a" "a_comments (downvote a u) = a_comments a"
  by (simp_all add: downvote_def Let_def)

lemma upvote_comment [simp]:
  "body (upvote c u) = body c" "articleId (upvote c u) = articleId c"
  by (simp_all add: upvote_def Let_def)

lemma downvote_comment [simp]:
  "body (downvote c u) = body c" "articleId (downvote c u) = articleId c"
  by (simp_all add: downvote_def Let_def)

lemma votable_eqI:
  "upvotedBy a = upvotedBy b \<Longrightarrow> downvotedBy a = downvotedBy b \<Longrightarrow>
   votable.more a = votable.more b \<Longrightarrow> a = (b :: 'a votable_scheme)"
  by simp

lemma votes_put_back:
  "(upvote e u)\<lparr>upvotedBy := upvotedBy e, downvotedBy := downvotedBy e\<rparr> = (e :: 'a votable_scheme)"
  "(downvote e u)\<lparr>upvotedBy := upvotedBy e, downvotedBy := downvotedBy e\<rparr> = e"
  by (simp_all add: upvote_def downvote_def Let_def)

subsection \<open>The handlers, branch by branch\<close>

text \<open>What each handler returns, branch by branch.\<close>

lemma getArticle_found:
  "live (articles db) idn = Some (k, found) \<Longrightarrow>
   getArticle idn db =
     (db\<lparr>articles := AList.update k
           (Some (found\<lparr>a_comments := Some (map (\<lambda>commentId. map_option (\<lambda>c. commentId)
              (live_at (comments db) commentId)) (commentIds found))\<rparr>)) (articles db)\<rparr>,
      reply_with 200 (ArticleBody (found\<lparr>a_comments := Some (map (\<lambda>commentId.
              map_option (\<lambda>c. commentId) (live_at (comments db) commentId)) (commentIds found))\<rparr>)))"
  by (simp add: getArticle_def Let_def)

lemma getArticle_missing:
  "live (articles db) idn = None \<Longrightarrow>
   getArticle idn db = (db, reply (if truthy_num idn then 404 else 400))"
  by (simp add: getArticle_def)

lemma updateArticle_found:
  "live (articles db) idn = Some (k, saved) \<Longrightarrow> truthy_num idn \<Longrightarrow>
   request_article request = Some ra \<Longrightarrow>
   updateArticle idn request db =
     (db\<lparr>articles := AList.update k
           (Some (saved\<lparr>title := (case truthy_str (r_title ra) of Some t \<Rightarrow> t | None \<Rightarrow> title saved),
                         url := (case truthy_str (r_url ra) of Some u \<Rightarrow> u | None \<Rightarrow> url saved)\<rparr>))
           (articles db)\<rparr>,
      reply_with 200 (ArticleBody
        (saved\<lparr>title := (case truthy_str (r_title ra) of Some t \<Rightarrow> t | None \<Rightarrow> title saved),
               url := (case truthy_str (r_url ra) of Some u \<Rightarrow> u | None \<Rightarrow> url saved)\<rparr>)))"
  by (simp add: updateArticle_def Let_def)

lemma upvoteArticle_found:
  "live (articles db) idn = Some (k, saved) \<Longrightarrow>
   map_of (users db) (prop_key (request_username request)) = Some voter \<Longrightarrow>
   upvoteArticle idn request db =
     (db\<lparr>articles := AList.update k (Some (upvote saved (request_username request))) (articles db)\<rparr>,
      reply_with 200 (ArticleBody (upvote saved (request_username request))))"
  by (simp add: upvoteArticle_def Let_def)

lemma downvoteArticle_found:
  "live (articles db) idn = Some (k, saved) \<Longrightarrow>
   map_of (users db) (prop_key (request_username request)) = Some voter \<Longrightarrow>
   downvoteArticle idn request db =
     (db\<lparr>articles := AList.update k (Some (downvote saved (request_username request))) (articles db)\<rparr>,
      reply_with 200 (ArticleBody (downvote saved (request_username request))))"
  by (simp add: downvoteArticle_def Let_def)

lemma upvoteComment_found:
  "live (comments db) idn = Some (k, saved) \<Longrightarrow>
   map_of (users db) (prop_key (request_username request)) = Some voter \<Longrightarrow>
   upvoteComment idn request db =
     (db\<lparr>comments := AList.update k (Some (upvote saved (request_username request))) (comments db)\<rparr>,
      reply_with 200 (CommentBody (upvote saved (request_username request))))"
  by (simp add: upvoteComment_def Let_def)

lemma downvoteComment_found:
  "live (comments db) idn = Some (k, saved) \<Longrightarrow>
   map_of (users db) (prop_key (request_username request)) = Some voter \<Longrightarrow>
   downvoteComment idn request db =
     (db\<lparr>comments := AList.update k (Some (downvote saved (request_username request))) (comments db)\<rparr>,
      reply_with 200 (CommentBody (downvote saved (request_username request))))"
  by (simp add: downvoteComment_def Let_def)

lemma getArticle_shape:
  "getArticle idn db = (db1, r) \<Longrightarrow>
   db1 = db \<or> (\<exists>k found cs. live_at (articles db) k = Some found \<and>
      db1 = db\<lparr>articles := AList.update k (Some (found\<lparr>a_comments := cs\<rparr>)) (articles db)\<rparr>)"
  by (fastforce simp: getArticle_def Let_def dest!: live_SomeD split: option.splits if_splits)

lemma updateArticle_shape:
  "updateArticle idn request db = (db1, r) \<Longrightarrow>
   db1 = db \<or> (\<exists>k saved t u. live_at (articles db) k = Some saved \<and>
      db1 = db\<lparr>articles := AList.update k (Some (saved\<lparr>title := t, url := u\<rparr>)) (articles db)\<rparr>)"
  by (fastforce simp: updateArticle_def Let_def dest!: live_SomeD split: option.splits if_splits)

lemma upvoteArticle_shape:
  "upvoteArticle idn request db = (db1, r) \<Longrightarrow>
   db1 = db \<or> (\<exists>k saved. live_at (articles db) k = Some saved \<and>
      db1 = db\<lparr>articles := AList.update k (Some (upvote saved (request_username request)))
                  (articles db)\<rparr>)"
  by (fastforce simp: upvoteArticle_def Let_def dest!: live_SomeD split: option.splits)

lemma downvoteArticle_shape:
  "downvoteArticle idn request db = (db1, r) \<Longrightarrow>
   db1 = db \<or> (\<exists>k saved. live_at (articles db) k = Some saved \<and>
      db1 = db\<lparr>articles := AList.update k (Some (downvote saved (request_username request)))
                  (articles db)\<rparr>)"
  by (fastforce simp: downvoteArticle_def Let_def dest!: live_SomeD split: option.splits)

lemma upvoteComment_shape:
  "upvoteComment idn request db = (db1, r) \<Longrightarrow>
   db1 = db \<or> (\<exists>k saved. live_at (comments db) k = Some saved \<and>
      db1 = db\<lparr>comments := AList.update k (Some (upvote saved (request_username request)))
                  (comments db)\<rparr>)"
  by (fastforce simp: upvoteComment_def Let_def dest!: live_SomeD split: option.splits)

lemma downvoteComment_shape:
  "downvoteComment idn request db = (db1, r) \<Longrightarrow>
   db1 = db \<or> (\<exists>k saved. live_at (comments db) k = Some saved \<and>
      db1 = db\<lparr>comments := AList.update k (Some (downvote saved (request_username request)))
                  (comments db)\<rparr>)"
  by (fastforce simp: downvoteComment_def Let_def dest!: live_SomeD split: option.splits)

lemma updateComment_shape:
  "updateComment idn request db = (db1, r) \<Longrightarrow>
   db1 = db \<or> (\<exists>k saved b. live_at (comments db) k = Some saved \<and>
      db1 = db\<lparr>comments := AList.update k (Some (saved\<lparr>body := b\<rparr>)) (comments db)\<rparr>)"
  by (auto simp: updateComment_def Let_def dest!: live_SomeD split: option.splits if_splits)

lemma createArticle_shape:
  "createArticle request db = (db1, r) \<Longrightarrow>
   (db1 = db \<and> r = reply 400) \<or>
   (\<exists>t u n author. map_of (users db) n = Some author \<and> t \<noteq> [] \<and> u \<noteq> [] \<and> n \<noteq> [] \<and>
      r = reply_with 201 (ArticleBody \<lparr>upvotedBy = [], downvotedBy = [], ident = nextArticleId db,
              username = n, title = t, url = u, commentIds = [], a_comments = None\<rparr>) \<and>
      db1 = db\<lparr>nextArticleId := nextArticleId db + 1,
               articles := AList.update (nextArticleId db)
                 (Some \<lparr>upvotedBy = [], downvotedBy = [], ident = nextArticleId db,
                   username = n, title = t, url = u, commentIds = [], a_comments = None\<rparr>) (articles db),
               users := AList.update n (author\<lparr>articleIds := articleIds author @ [nextArticleId db]\<rparr>)
                 (users db)\<rparr>)"
  by (fastforce simp: createArticle_def Let_def truthy_str_def split: option.splits if_splits)

lemma createComment_shape:
  "createComment request db = (db1, r) \<Longrightarrow>
   (db1 = db \<and> r = reply 400) \<or>
   (\<exists>b n ak author parent. map_of (users db) n = Some author \<and>
      live_at (articles db) ak = Some parent \<and> b \<noteq> [] \<and> n \<noteq> [] \<and>
      r = reply_with 201 (CommentBody \<lparr>upvotedBy = [], downvotedBy = [], ident = nextCommentId db,
              username = n, body = b, articleId = ak\<rparr>) \<and>
      db1 = db\<lparr>nextCommentId := nextCommentId db + 1,
               comments := AList.update (nextCommentId db)
                 (Some \<lparr>upvotedBy = [], downvotedBy = [], ident = nextCommentId db,
                   username = n, body = b, articleId = ak\<rparr>) (comments db),
               users := AList.update n (author\<lparr>u_commentIds := u_commentIds author @ [nextCommentId db]\<rparr>)
                 (users db),
               articles := AList.update ak
                 (Some (parent\<lparr>commentIds := commentIds parent @ [nextCommentId db]\<rparr>)) (articles db)\<rparr>)"
  by (fastforce simp: createComment_def Let_def truthy_str_def dest!: live_SomeD split: option.splits if_splits)

lemma deleteComment_shape:
  "deleteComment idn db = Inr (db1, r) \<Longrightarrow>
   (db1 = db \<and> r = reply 404 \<and> live (comments db) idn = None) \<or>
   (\<exists>k saved savedUser savedArticle. live (comments db) idn = Some (k, saved) \<and>
      map_of (users db) (username saved) = Some savedUser \<and>
      live_at (articles db) (articleId saved) = Some savedArticle \<and> r = reply 204 \<and>
      db1 = db\<lparr>users := AList.update (username saved)
                 (savedUser\<lparr>u_commentIds := filter (\<lambda>element. element \<noteq> k) (u_commentIds savedUser)\<rparr>)
                 (users db),
               articles := AList.update (articleId saved)
                 (Some (savedArticle\<lparr>commentIds :=
                    filter (\<lambda>element. element \<noteq> k) (commentIds savedArticle)\<rparr>)) (articles db),
               comments := AList.update k None (comments db)\<rparr>)"
  by (auto simp: deleteComment_def split: option.splits)

lemma getOrCreateUser_tables:
  "getOrCreateUser request db = (db1, r) \<Longrightarrow>
   articles db1 = articles db \<and> comments db1 = comments db \<and>
   nextArticleId db1 = nextArticleId db \<and> nextCommentId db1 = nextCommentId db"
  by (auto simp: getOrCreateUser_def Let_def split: option.splits jsname.splits if_splits)

lemma getUser_same: "fst (getUser name db) = db"
  by (auto simp: getUser_def split: option.splits)

lemma getArticles_same: "fst (getArticles db) = db"
  by (simp add: getArticles_def)

lemma cascade_frame:
  "cascade k cs db = Inr db1 \<Longrightarrow>
     articles db1 = articles db \<and> nextArticleId db1 = nextArticleId db \<and>
     nextCommentId db1 = nextCommentId db \<and>
     (\<forall>j. map_of (comments db1) j = (if j \<in> set cs then Some None else map_of (comments db) j))"
proof (induction cs arbitrary: db)
  case Nil
  then show ?case by simp
next
  case (Cons c cs)
  from Cons.prems obtain x author where
    x: "live_at (comments db) c = Some x" and
    a: "map_of (users db) (username x) = Some author" and
    r: "cascade k cs (db\<lparr>comments := AList.update c None (comments db),
           users := AList.update (username x)
             (author\<lparr>u_commentIds := splice_indexOf k (u_commentIds author)\<rparr>) (users db)\<rparr>) = Inr db1"
    by (auto split: option.splits)
  from Cons.IH [OF r] show ?case
    by (auto simp: update_conv')
qed

lemma cascade_keys:
  "cascade k cs db = Inr db1 \<Longrightarrow> j \<in> set cs \<Longrightarrow> map_of (comments db) j \<noteq> None"
proof (induction cs arbitrary: db)
  case Nil
  then show ?case by simp
next
  case (Cons c cs)
  from Cons.prems(1) obtain x author where
    x: "live_at (comments db) c = Some x" and
    r: "cascade k cs (db\<lparr>comments := AList.update c None (comments db),
           users := AList.update (username x)
             (author\<lparr>u_commentIds := splice_indexOf k (u_commentIds author)\<rparr>) (users db)\<rparr>) = Inr db1"
    by (auto split: option.splits)
  show ?case
  proof (cases "j = c")
    case True
    with x show ?thesis by (auto dest: live_at_SomeD)
  next
    case False
    with Cons.prems(2) have "j \<in> set cs" by simp
    from Cons.IH [OF r this] False show ?thesis by (simp add: update_conv')
  qed
qed

lemma deleteArticle_effect:
  assumes "deleteArticle idn db = Inr (db1, r)"
  shows "(db1 = db \<and> r = reply 400 \<and> live (articles db) idn = None) \<or>
         (\<exists>k saved. live (articles db) idn = Some (k, saved) \<and> r = reply 204 \<and>
            articles db1 = AList.update k None (articles db) \<and>
            nextArticleId db1 = nextArticleId db \<and> nextCommentId db1 = nextCommentId db \<and>
            (\<forall>j. map_of (comments db1) j =
                  (if j \<in> set (commentIds saved) then Some None else map_of (comments db) j)))"
proof (cases "live (articles db) idn")
  case None
  with assms show ?thesis by (simp add: deleteArticle_def)
next
  case (Some p)
  obtain k saved where p: "p = (k, saved)" by (cases p)
  from assms Some p obtain db2 author where
    c: "cascade k (commentIds saved) (db\<lparr>articles := AList.update k None (articles db)\<rparr>) = Inr db2"
    and d: "db1 = db2\<lparr>users := AList.update (username saved)
               (author\<lparr>articleIds := splice_indexOf k (articleIds author)\<rparr>) (users db2)\<rparr>"
    and r: "r = reply 204"
    by (auto simp: deleteArticle_def split: sum.splits option.splits)
  from cascade_frame [OF c] d r Some p show ?thesis by simp
qed

lemma deleteArticle_live:
  assumes "deleteArticle idn db = Inr (db1, r)"
  shows "(live_at (articles db1) j = Some a \<longrightarrow> live_at (articles db) j = Some a) \<and>
         (live_at (comments db1) j = Some c \<longrightarrow> live_at (comments db) j = Some c)"
  using deleteArticle_effect [OF assms]
proof (elim disjE exE conjE)
  assume "db1 = db"
  then show ?thesis by simp
next
  fix k saved
  assume a: "articles db1 = AList.update k None (articles db)"
    and c: "\<forall>j. map_of (comments db1) j =
                  (if j \<in> set (commentIds saved) then Some None else map_of (comments db) j)"
  from a have "live_at (articles db1) j = Some a \<longrightarrow> live_at (articles db) j = Some a"
    by (simp split: if_splits)
  moreover from c have "live_at (comments db1) j = Some c \<longrightarrow> live_at (comments db) j = Some c"
    by (cases "j \<in> set (commentIds saved)") (simp_all add: live_at_def)
  ultimately show ?thesis by simp
qed

subsection \<open>What every operation keeps\<close>


lemma grows_refl: "grows db db"
  by (simp add: grows_def)


lemma deleteArticle_grows:
  assumes d: "deleteArticle idn db = Inr (db1, r)"
  shows "grows db db1"
  using deleteArticle_effect [OF d]
proof (elim disjE exE conjE)
  assume "db1 = db"
  then show ?thesis by (simp add: grows_refl)
next
  fix k saved
  assume l: "live (articles db) idn = Some (k, saved)"
    and a: "articles db1 = AList.update k None (articles db)"
    and n: "nextArticleId db1 = nextArticleId db" "nextCommentId db1 = nextCommentId db"
    and c: "\<forall>j. map_of (comments db1) j =
                (if j \<in> set (commentIds saved) then Some None else map_of (comments db) j)"
  from l have la: "live_at (articles db) k = Some saved" by (auto dest: live_SomeD)
  have keys: "map_of (comments db) j \<noteq> None" if j: "j \<in> set (commentIds saved)" for j
  proof -
    from d l obtain db2 where
      "cascade k (commentIds saved) (db\<lparr>articles := AList.update k None (articles db)\<rparr>) = Inr db2"
      by (auto simp: deleteArticle_def split: sum.splits option.splits)
    from cascade_keys [OF this j] show ?thesis by simp
  qed
  have inv: "ids_inv db1" if i: "ids_inv db"
  proof -
    from i la have ta: "table_ok ident (AList.update k None (articles db)) (nextArticleId db)"
      by (simp add: ids_inv_def table_ok_null)
    from i have "table_ok ident (comments db) (nextCommentId db)"
      by (simp add: ids_inv_def)
    then have "table_ok ident (comments db1) (nextCommentId db)"
      by (rule table_ok_map_of [where t = "comments db" and S = "set (commentIds saved)", rotated 2])
         (simp_all add: c keys)
    with ta a n show ?thesis by (simp add: ids_inv_def)
  qed
  have ka: "map_of (articles db1) j \<noteq> None" if "map_of (articles db) j \<noteq> None" for j
    using that a by (simp add: update_conv')
  have kc: "map_of (comments db1) j \<noteq> None" if "map_of (comments db) j \<noteq> None" for j
    using that c by simp
  from n ka kc inv show ?thesis
    unfolding grows_def by simp
qed

lemma step_grows:
  assumes "step x db = Inr (db1, r)"
  shows "grows db db1"
proof (cases x)
  case (GetOrCreateUser request)
  with assms have "getOrCreateUser request db = (db1, r)" by simp
  from getOrCreateUser_tables [OF this] show ?thesis
    by (simp add: grows_def ids_inv_def)
next
  case (GetUser name)
  with assms getUser_same [of name db] show ?thesis by (auto simp: grows_refl)
next
  case GetArticles
  with assms getArticles_same [of db] show ?thesis by (auto simp: grows_refl)
next
  case (CreateArticle request)
  with assms show ?thesis
    by (auto simp: grows_def ids_inv_def table_rules dest!: createArticle_shape)
next
  case (GetArticle idn)
  with assms show ?thesis
    by (auto simp: grows_def ids_inv_def table_rules dest!: getArticle_shape)
next
  case (UpdateArticle idn request)
  with assms show ?thesis
    by (auto simp: grows_def ids_inv_def table_rules dest!: updateArticle_shape)
next
  case (DeleteArticle idn)
  with assms show ?thesis by (simp add: deleteArticle_grows)
next
  case (UpvoteArticle idn request)
  with assms show ?thesis
    by (auto simp: grows_def ids_inv_def table_rules dest!: upvoteArticle_shape)
next
  case (DownvoteArticle idn request)
  with assms show ?thesis
    by (auto simp: grows_def ids_inv_def table_rules dest!: downvoteArticle_shape)
next
  case (CreateComment request)
  with assms show ?thesis
    by (auto simp: grows_def ids_inv_def table_rules dest!: createComment_shape)
next
  case (UpdateComment idn request)
  with assms show ?thesis
    by (auto simp: grows_def ids_inv_def table_rules dest!: updateComment_shape)
next
  case (DeleteComment idn)
  with assms show ?thesis
    by (auto simp: grows_def ids_inv_def table_rules dest!: deleteComment_shape live_SomeD)
next
  case (UpvoteComment idn request)
  with assms show ?thesis
    by (auto simp: grows_def ids_inv_def table_rules dest!: upvoteComment_shape)
next
  case (DownvoteComment idn request)
  with assms show ?thesis
    by (auto simp: grows_def ids_inv_def table_rules dest!: downvoteComment_shape)
qed

lemma ids_inv_database0: "ids_inv database0"
  by (simp add: ids_inv_def table_ok_def database0_def)

lemma reachable_ids_inv: "reachable db \<Longrightarrow> ids_inv db"
proof (induction rule: reachable.induct)
  case initial
  show ?case by (rule ids_inv_database0)
next
  case (after db x db1 r)
  from step_grows [OF after.hyps(2)] after.IH show ?case by (simp add: grows_def)
qed

lemma reachable_exec: "reachable db \<Longrightarrow> reachable (fst (exec xs db))"
proof (induction xs arbitrary: db)
  case Nil
  then show ?case by simp
next
  case (Cons x xs)
  show ?case
  proof (cases "step x db")
    case (Inl e)
    with Cons.prems show ?thesis by simp
  next
    case (Inr p)
    obtain db1 r where p: "p = (db1, r)" by (cases p)
    from Cons.prems Inr p have "reachable db1" by (blast intro: reachable.after)
    from Cons.IH [OF this] Inr p show ?thesis by (simp add: case_prod_beta)
  qed
qed





lemma step_a_comments:
  assumes inv: "ids_inv db" and s: "step x db = Inr (db1, r)" and x: "\<forall>i. x \<noteq> GetArticle i"
    and a: "live_at (articles db) k = Some a" and a1: "live_at (articles db1) k = Some a1"
  shows "a_comments a1 = a_comments a"
proof (cases x)
  case (GetOrCreateUser request)
  with s have "getOrCreateUser request db = (db1, r)" by simp
  from getOrCreateUser_tables [OF this] a a1 show ?thesis by simp
next
  case (GetUser name)
  with s getUser_same [of name db] a a1 show ?thesis by auto
next
  case GetArticles
  with s getArticles_same [of db] a a1 show ?thesis by auto
next
  case (CreateArticle request)
  with s have "createArticle request db = (db1, r)" by simp
  from createArticle_shape [OF this] show ?thesis
  proof (elim disjE exE conjE)
    assume "db1 = db"
    with a a1 show ?thesis by simp
  next
    fix t u n author
    assume d: "db1 = db\<lparr>nextArticleId := nextArticleId db + 1,
               articles := AList.update (nextArticleId db)
                 (Some \<lparr>upvotedBy = [], downvotedBy = [], ident = nextArticleId db,
                   username = n, title = t, url = u, commentIds = [], a_comments = None\<rparr>) (articles db),
               users := AList.update n (author\<lparr>articleIds := articleIds author @ [nextArticleId db]\<rparr>)
                 (users db)\<rparr>"
    from inv have "table_ok ident (articles db) (nextArticleId db)" by (simp add: ids_inv_def)
    from table_ok_ident [OF this a] have "k \<noteq> nextArticleId db" by simp
    with d a a1 show ?thesis by simp
  qed
next
  case (GetArticle idn)
  with x show ?thesis by simp
next
  case (UpdateArticle idn request)
  with s a a1 show ?thesis
    by (auto dest!: updateArticle_shape split: if_splits)
next
  case (DeleteArticle idn)
  with s have "deleteArticle idn db = Inr (db1, r)" by simp
  from deleteArticle_live [OF this, of k a1] a a1 show ?thesis by simp
next
  case (UpvoteArticle idn request)
  with s a a1 show ?thesis
    by (auto dest!: upvoteArticle_shape split: if_splits)
next
  case (DownvoteArticle idn request)
  with s a a1 show ?thesis
    by (auto dest!: downvoteArticle_shape split: if_splits)
next
  case (CreateComment request)
  with s a a1 show ?thesis
    by (auto dest!: createComment_shape split: if_splits)
next
  case (UpdateComment idn request)
  with s a a1 show ?thesis
    by (auto dest!: updateComment_shape split: if_splits)
next
  case (DeleteComment idn)
  with s a a1 show ?thesis
    by (auto dest!: deleteComment_shape split: if_splits)
next
  case (UpvoteComment idn request)
  with s a a1 show ?thesis
    by (auto dest!: upvoteComment_shape split: if_splits)
next
  case (DownvoteComment idn request)
  with s a a1 show ?thesis
    by (auto dest!: downvoteComment_shape split: if_splits)
qed

subsection \<open>References resolve, so no handler throws\<close>
























subsection \<open>The example runs\<close>

lemmas handler_defs = getOrCreateUser_def getUser_def getArticles_def getArticle_def createArticle_def
  updateArticle_def deleteArticle_def upvoteArticle_def downvoteArticle_def createComment_def
  updateComment_def deleteComment_def upvoteComment_def downvoteComment_def

lemmas value_defs = request_username_def request_article_def request_comment_def prop_key_def
  truthy_str_def truthy_num_def key_of_def live_def live_at_def reply_def reply_with_def
  splice_indexOf_def database0_def user_request_def article_request_def comment_request_def Let_def

lemma posted_db:
  "fst (exec posted_ops database0) =
   \<lparr>users = [(''alice'', \<lparr>u_username = ''alice'', articleIds = [1], u_commentIds = []\<rparr>)],
    articles =
      [(1, Some \<lparr>upvotedBy = [], downvotedBy = [], ident = 1, username = ''alice'', title = ''T1'',
                 url = ''http://x'', commentIds = [], a_comments = None\<rparr>)],
    nextArticleId = 2, comments = [], nextCommentId = 1\<rparr>"
  by (simp add: posted_ops_def handler_defs value_defs)

lemma commented_db:
  "fst (exec commented_ops database0) =
   \<lparr>users = [(''alice'', \<lparr>u_username = ''alice'', articleIds = [1], u_commentIds = [1]\<rparr>)],
    articles =
      [(1, Some \<lparr>upvotedBy = [], downvotedBy = [], ident = 1, username = ''alice'', title = ''T1'',
                 url = ''http://x'', commentIds = [1], a_comments = None\<rparr>)],
    nextArticleId = 2,
    comments =
      [(1, Some \<lparr>upvotedBy = [], downvotedBy = [], ident = 1, username = ''alice'',
                 body = ''first'', articleId = 1\<rparr>)],
    nextCommentId = 2\<rparr>"
  by (simp add: commented_ops_def posted_ops_def handler_defs value_defs)

lemma listing_db:
  "fst (exec listing_ops database0) =
   \<lparr>users = [(''alice'', \<lparr>u_username = ''alice'', articleIds = [1, 3, 4], u_commentIds = []\<rparr>)],
    articles =
      [(1, Some \<lparr>upvotedBy = [], downvotedBy = [], ident = 1, username = ''alice'', title = ''T1'',
                 url = ''http://x'', commentIds = [], a_comments = None\<rparr>),
       (2, None),
       (3, Some \<lparr>upvotedBy = [], downvotedBy = [], ident = 3, username = ''alice'', title = ''T3'',
                 url = ''http://z'', commentIds = [], a_comments = None\<rparr>),
       (4, Some \<lparr>upvotedBy = [], downvotedBy = [], ident = 4, username = ''alice'', title = ''T4'',
                 url = ''http://w'', commentIds = [], a_comments = None\<rparr>)],
    nextArticleId = 5, comments = [], nextCommentId = 1\<rparr>"
  by (simp add: listing_ops_def handler_defs value_defs)

lemma posted_reachable: "reachable (fst (exec posted_ops database0))"
  by (rule reachable_exec [OF reachable.initial])

lemma path_id_examples:
  "path_id ''/articles/0'' = Some (Num 0)"
  "path_id ''/articles/999'' = Some (Num 999)"
  "path_id ''/articles/abc'' = Some NaN"
  by (simp_all add: path_id_def pathSegments_def at_index_def Number_segment_def digit_of_def decimal_def)

subsection \<open>Deleting an article\<close>

text \<open>
  C1. \<^verbatim>\<open>deleteArticle\<close> on a run where it goes wrong. Alice's comments are 1 (on
  article 2) and 2 (on article 1). Deleting article 2 sets article 2 and comment 1 to
  \<^verbatim>\<open>null\<close> and removes 2 from her \<^verbatim>\<open>articleIds\<close>, but the splice at
  \<^verbatim>\<open>indexOf(id)\<close> removes from her \<^verbatim>\<open>commentIds\<close> the entry equal to the article's
  id: the id 2 of her live comment goes, the id 1 of the deleted comment stays.
\<close>

theorem deleteArticle_cascade_failing_input:
  "map_of (users (fst (exec (butlast cascade_ops) database0))) ''alice'' =
     Some \<lparr>u_username = ''alice'', articleIds = [1, 2], u_commentIds = [1, 2]\<rparr> \<and>
   map_option commentIds (live_at (articles (fst (exec (butlast cascade_ops) database0))) 2) = Some [1] \<and>
   last cascade_ops = DeleteArticle (Num 2) \<and>
   map (status \<circ> snd) (snd (exec cascade_ops database0)) = [201, 201, 201, 201, 201, 204] \<and>
   map_of (articles (fst (exec cascade_ops database0))) 2 = Some None \<and>
   map_of (comments (fst (exec cascade_ops database0))) 1 = Some None \<and>
   map_of (comments (fst (exec cascade_ops database0))) 2 =
     Some (Some \<lparr>upvotedBy = [], downvotedBy = [], ident = 2, username = ''alice'',
                  body = ''on the first'', articleId = 1\<rparr>) \<and>
   map_of (users (fst (exec cascade_ops database0))) ''alice'' =
     Some \<lparr>u_username = ''alice'', articleIds = [1], u_commentIds = [1]\<rparr>"
  by (simp add: cascade_ops_def handler_defs value_defs)

subsection \<open>Votes\<close>

text \<open>
  An entity whose \<^verbatim>\<open>downvotedBy\<close> holds a username twice: each \<^verbatim>\<open>upvote\<close> splices one
  occurrence out, so the second call still changes the entity.
\<close>

theorem vote_twice_counterexample:
  "upvote (upvote \<lparr>upvotedBy = [], downvotedBy = [Str ''u'', Str ''u'']\<rparr> (Str ''u'')) (Str ''u'')
     \<noteq> upvote \<lparr>upvotedBy = [], downvotedBy = [Str ''u'', Str ''u'']\<rparr> (Str ''u'')"
  by (simp add: upvote_def splice_indexOf_def)

text \<open>
  C2, amended. For every entity whose \<^verbatim>\<open>upvotedBy\<close> and \<^verbatim>\<open>downvotedBy\<close> each hold no
  username twice, and every username \<open>u\<close>: a second \<^verbatim>\<open>upvote\<close> by \<open>u\<close> changes nothing,
  a second \<^verbatim>\<open>downvote\<close> by \<open>u\<close> changes nothing, and after an upvote then a downvote
  (or a downvote then an upvote) by \<open>u\<close>, \<open>u\<close> is not in both vote lists.
\<close>

theorem vote_idempotent:
  assumes "distinct (upvotedBy e)" and "distinct (downvotedBy e)"
  shows "upvote (upvote e u) u = upvote e u \<and>
         downvote (downvote e u) u = downvote e u \<and>
         \<not> (u \<in> set (upvotedBy (downvote (upvote e u) u)) \<and>
            u \<in> set (downvotedBy (downvote (upvote e u) u))) \<and>
         \<not> (u \<in> set (upvotedBy (upvote (downvote e u) u)) \<and>
            u \<in> set (downvotedBy (upvote (downvote e u) u)))"
proof (intro conjI)
  show "upvote (upvote e u) u = upvote e u"
    using assms by (intro votable_eqI) (auto simp: upvote_lists remove1_idem)
  show "downvote (downvote e u) u = downvote e u"
    using assms by (intro votable_eqI) (auto simp: downvote_lists remove1_idem)
  show "\<not> (u \<in> set (upvotedBy (downvote (upvote e u) u)) \<and>
            u \<in> set (downvotedBy (downvote (upvote e u) u)))"
    using assms by (auto simp: upvote_lists downvote_lists)
  show "\<not> (u \<in> set (upvotedBy (upvote (downvote e u) u)) \<and>
            u \<in> set (downvotedBy (upvote (downvote e u) u)))"
    using assms by (auto simp: upvote_lists downvote_lists)
qed

theorem vote_idempotent_witness:
  "distinct [Str ''bob''] \<and> distinct [Str ''alice'', Str ''carol''] \<and>
   upvote (upvote \<lparr>upvotedBy = [Str ''bob''], downvotedBy = [Str ''alice'', Str ''carol'']\<rparr>
     (Str ''alice'')) (Str ''alice'')
     = upvote \<lparr>upvotedBy = [Str ''bob''], downvotedBy = [Str ''alice'', Str ''carol'']\<rparr> (Str ''alice'') \<and>
   upvote \<lparr>upvotedBy = [Str ''bob''], downvotedBy = [Str ''alice'', Str ''carol'']\<rparr> (Str ''alice'')
     = \<lparr>upvotedBy = [Str ''bob'', Str ''alice''], downvotedBy = [Str ''carol'']\<rparr> \<and>
   downvote (upvote \<lparr>upvotedBy = [Str ''bob''], downvotedBy = [Str ''alice'', Str ''carol'']\<rparr>
     (Str ''alice'')) (Str ''alice'')
     = \<lparr>upvotedBy = [Str ''bob''], downvotedBy = [Str ''carol'', Str ''alice'']\<rparr>"
  using vote_idempotent [of "\<lparr>upvotedBy = [Str ''bob''], downvotedBy = [Str ''alice'', Str ''carol'']\<rparr>"
      "Str ''alice''"]
  by (simp add: upvote_def downvote_def splice_indexOf_def)



subsection \<open>Ids\<close>



subsection \<open>Listing articles\<close>

lemma set_map_filter_option:
  "set (List.map_filter g xs) = {y. \<exists>x \<in> set xs. g x = Some y}"
  by (induction xs) (auto split: option.splits)

lemma map_filter_live_ident:
  assumes "table_ok idf t n"
  shows "map idf (List.map_filter (live_at t) ks) = filter (\<lambda>k. live_at t k \<noteq> None) ks"
proof (induction ks)
  case Nil
  show ?case by simp
next
  case (Cons k ks)
  show ?case
  proof (cases "live_at t k")
    case None
    with Cons show ?thesis by simp
  next
    case (Some a)
    with table_ok_ident [OF assms Some] Cons show ?thesis by simp
  qed
qed

lemma live_at_key: "live_at t k = Some a \<Longrightarrow> k \<in> set (Object_keys t)"
  by (auto simp: Object_keys_def dest!: live_at_SomeD map_of_SomeD intro: rev_image_eqI)

lemma set_map_filter_live:
  "set (List.map_filter (live_at t) (Object_keys t)) = {a. \<exists>k. live_at t k = Some a}"
  by (auto simp: set_map_filter_option dest: live_at_key)

lemma strict_desc_sort_key:
  assumes "distinct (map idf xs)"
  shows "sorted_wrt (\<lambda>a b. idf b < idf a) (sort_key (\<lambda>a. - int (idf a)) xs) \<and>
         distinct (sort_key (\<lambda>a. - int (idf a)) xs)"
proof -
  let ?f = "\<lambda>a. - int (idf a)"
  let ?ys = "sort_key ?f xs"
  from assms have d: "distinct xs" and i: "inj_on idf (set xs)"
    by (simp_all add: distinct_map)
  from i have "inj_on ?f (set xs)"
    by (auto simp: inj_on_def)
  with d have "distinct (map ?f ?ys)"
    by (simp add: distinct_map)
  moreover have "sorted (map ?f ?ys)"
    by (rule sorted_sort_key)
  ultimately have "sorted_wrt (<) (map ?f ?ys)"
    by (simp add: strict_sorted_iff)
  then have "sorted_wrt (\<lambda>a b. ?f a < ?f b) ?ys"
    by (simp add: sorted_wrt_map)
  then have "sorted_wrt (\<lambda>a b. idf b < idf a) ?ys"
    by simp
  with d show ?thesis by simp
qed

text \<open>
  C5. In every state of the database, \<^verbatim>\<open>getArticles\<close> leaves the database as it is and
  answers 200 with a list that holds exactly the articles that are not deleted, each once,
  in strictly descending order of id.
\<close>

theorem getArticles_live_descending:
  assumes "reachable db"
  shows "\<exists>found. getArticles db = (db, \<lparr>status = 200, payload = Some (ArticlesBody found)\<rparr>) \<and>
           set found = {a. \<exists>k. live_at (articles db) k = Some a} \<and>
           distinct found \<and>
           sorted_wrt (\<lambda>a b. ident b < ident a) found"
proof -
  let ?xs = "List.map_filter (live_at (articles db)) (Object_keys (articles db))"
  from reachable_ids_inv [OF assms] have t: "table_ok ident (articles db) (nextArticleId db)"
    by (simp add: ids_inv_def)
  have "distinct (Object_keys (articles db))"
    by (simp add: Object_keys_def)
  then have "distinct (map ident ?xs)"
    by (simp add: map_filter_live_ident [OF t])
  from strict_desc_sort_key [OF this] set_map_filter_live [of "articles db"]
  show ?thesis
    by (simp add: getArticles_def reply_with_def)
qed

theorem getArticles_live_descending_witness:
  "reachable (fst (exec listing_ops database0)) \<and>
   (\<exists>found. getArticles (fst (exec listing_ops database0)) =
        (fst (exec listing_ops database0), \<lparr>status = 200, payload = Some (ArticlesBody found)\<rparr>) \<and>
      map ident found = [4, 3, 1] \<and> map title found = [''T4'', ''T3'', ''T1''] \<and>
      sorted_wrt (\<lambda>a b. ident b < ident a) found)"
proof -
  have r: "reachable (fst (exec listing_ops database0))"
    by (rule reachable_exec [OF reachable.initial])
  from getArticles_live_descending [OF r] obtain found where
    f: "getArticles (fst (exec listing_ops database0)) =
        (fst (exec listing_ops database0), \<lparr>status = 200, payload = Some (ArticlesBody found)\<rparr>)"
    and s: "sorted_wrt (\<lambda>a b. ident b < ident a) found"
    by blast
  from f have m: "map ident found = [4, 3, 1]" "map title found = [''T4'', ''T3'', ''T1'']"
    unfolding listing_db by (auto simp: getArticles_def reply_with_def Object_keys_def live_at_def)
  show ?thesis
  proof (intro conjI exI)
    show "reachable (fst (exec listing_ops database0))" by (rule r)
    show "getArticles (fst (exec listing_ops database0)) =
        (fst (exec listing_ops database0), \<lparr>status = 200, payload = Some (ArticlesBody found)\<rparr>)"
      by (rule f)
    show "map ident found = [4, 3, 1]" by (rule m)
    show "map title found = [''T4'', ''T3'', ''T1'']" by (rule m)
    show "sorted_wrt (\<lambda>a b. ident b < ident a) found" by (rule s)
  qed
qed

subsection \<open>Updating an article\<close>

text \<open>
  C7. In every state of the database, for a live article: a request without an article
  patch is answered 400 and changes nothing; a request with one is answered 200, and the
  article is stored with its title replaced only by a title that is present and not
  empty, and its url likewise. An absent or empty field leaves the stored value, nothing
  else in the record changes, and a field that was not empty is not empty afterwards.
\<close>

theorem updateArticle_patch:
  assumes "reachable db" and "live (articles db) idn = Some (k, saved)"
  shows "(request_article request = None \<longrightarrow>
            updateArticle idn request db = (db, \<lparr>status = 400, payload = None\<rparr>)) \<and>
         (\<forall>ra. request_article request = Some ra \<longrightarrow>
            (\<exists>a. updateArticle idn request db =
               (db\<lparr>articles := AList.update k (Some a) (articles db)\<rparr>,
                \<lparr>status = 200, payload = Some (ArticleBody a)\<rparr>) \<and>
             title a = (case r_title ra of None \<Rightarrow> title saved
                        | Some t \<Rightarrow> if t = [] then title saved else t) \<and>
             url a = (case r_url ra of None \<Rightarrow> url saved
                      | Some u \<Rightarrow> if u = [] then url saved else u) \<and>
             a = saved\<lparr>title := title a, url := url a\<rparr> \<and>
             (title saved \<noteq> [] \<longrightarrow> title a \<noteq> []) \<and> (url saved \<noteq> [] \<longrightarrow> url a \<noteq> [])))"
proof (intro conjI allI impI)
  assume "request_article request = None"
  then show "updateArticle idn request db = (db, \<lparr>status = 400, payload = None\<rparr>)"
    by (simp add: updateArticle_def reply_def)
next
  fix ra
  assume q: "request_article request = Some ra"
  from reachable_ids_inv [OF assms(1)] have "table_ok ident (articles db) (nextArticleId db)"
    by (simp add: ids_inv_def)
  from live_truthy [OF this assms(2)] have t: "truthy_num idn" .
  show "\<exists>a. updateArticle idn request db =
               (db\<lparr>articles := AList.update k (Some a) (articles db)\<rparr>,
                \<lparr>status = 200, payload = Some (ArticleBody a)\<rparr>) \<and>
             title a = (case r_title ra of None \<Rightarrow> title saved
                        | Some t \<Rightarrow> if t = [] then title saved else t) \<and>
             url a = (case r_url ra of None \<Rightarrow> url saved
                      | Some u \<Rightarrow> if u = [] then url saved else u) \<and>
             a = saved\<lparr>title := title a, url := url a\<rparr> \<and>
             (title saved \<noteq> [] \<longrightarrow> title a \<noteq> []) \<and> (url saved \<noteq> [] \<longrightarrow> url a \<noteq> [])"
    unfolding updateArticle_found [OF assms(2) t q]
    by (auto simp: reply_with_def truthy_str_def split: option.splits)
qed

theorem updateArticle_patch_witness:
  "reachable (fst (exec posted_ops database0)) \<and>
   live (articles (fst (exec posted_ops database0))) (Num 1) =
     Some (1, \<lparr>upvotedBy = [], downvotedBy = [], ident = 1, username = ''alice'', title = ''T1'',
               url = ''http://x'', commentIds = [], a_comments = None\<rparr>) \<and>
   request_article patch_request =
     Some \<lparr>r_title = Some [], r_url = Some ''http://new'', r_username = None\<rparr> \<and>
   (\<exists>a. updateArticle (Num 1) patch_request (fst (exec posted_ops database0)) =
           ((fst (exec posted_ops database0))\<lparr>articles := [(1, Some a)]\<rparr>,
            \<lparr>status = 200, payload = Some (ArticleBody a)\<rparr>) \<and>
         title a = ''T1'' \<and> url a = ''http://new'')"
proof -
  let ?db = "fst (exec posted_ops database0)"
  let ?saved = "\<lparr>upvotedBy = [], downvotedBy = [], ident = 1, username = ''alice'', title = ''T1'',
               url = ''http://x'', commentIds = [], a_comments = None\<rparr>"
  let ?ra = "\<lparr>r_title = Some [], r_url = Some ''http://new'', r_username = None\<rparr>"
  have l: "live (articles ?db) (Num 1) = Some (1, ?saved)"
    unfolding posted_db by (simp add: live_def live_at_def key_of_def)
  have q: "request_article patch_request = Some ?ra"
    by (simp add: patch_request_def request_article_def)
  from updateArticle_patch [OF posted_reachable l, of patch_request, THEN conjunct2, rule_format, OF q]
  obtain a where
    u: "updateArticle (Num 1) patch_request ?db =
          (?db\<lparr>articles := AList.update 1 (Some a) (articles ?db)\<rparr>,
           \<lparr>status = 200, payload = Some (ArticleBody a)\<rparr>)"
    and t: "title a = ''T1''" and w: "url a = ''http://new''"
    by auto
  have "AList.update 1 (Some a) (articles ?db) = [(1, Some a)]"
    unfolding posted_db by simp
  with u have u': "updateArticle (Num 1) patch_request ?db =
          (?db\<lparr>articles := [(1, Some a)]\<rparr>, \<lparr>status = 200, payload = Some (ArticleBody a)\<rparr>)"
    by simp
  show ?thesis
  proof (intro conjI exI)
    show "reachable ?db" by (rule posted_reachable)
    show "live (articles ?db) (Num 1) = Some (1, ?saved)" by (rule l)
    show "request_article patch_request = Some ?ra" by (rule q)
    show "updateArticle (Num 1) patch_request ?db =
          (?db\<lparr>articles := [(1, Some a)]\<rparr>, \<lparr>status = 200, payload = Some (ArticleBody a)\<rparr>)"
      by (rule u')
    show "title a = ''T1''" by (rule t)
    show "url a = ''http://new''" by (rule w)
  qed
qed

subsection \<open>Reading an article\<close>

text \<open>
  \<^verbatim>\<open>GET /articles/0\<close>: the id is numeric and was never created, and the answer is 400.
\<close>

theorem getArticle_zero_counterexample:
  "path_id ''/articles/0'' = Some (Num 0) \<and>
   map_of (articles database0) 0 = None \<and>
   getArticle (Num 0) database0 = (database0, \<lparr>status = 400, payload = None\<rparr>)"
  by (simp add: path_id_examples getArticle_def live_def live_at_def key_of_def truthy_num_def
      database0_def reply_def)

text \<open>
  C8, amended. When the id names no live article (never created, or deleted),
  \<^verbatim>\<open>getArticle\<close> answers 404 with no body if the id is a truthy number (any number but
  \<open>0\<close> and \<^verbatim>\<open>NaN\<close>) and 400 with no body if it is falsy (\<^verbatim>\<open>NaN\<close>, as a non-numeric
  segment gives, or \<open>0\<close>); the database is unchanged in both cases.
\<close>

theorem getArticle_missing_status:
  "(live (articles db) idn = None \<and> truthy_num idn \<longrightarrow>
      getArticle idn db = (db, \<lparr>status = 404, payload = None\<rparr>)) \<and>
   (live (articles db) idn = None \<and> \<not> truthy_num idn \<longrightarrow>
      getArticle idn db = (db, \<lparr>status = 400, payload = None\<rparr>)) \<and>
   getArticle NaN db = (db, \<lparr>status = 400, payload = None\<rparr>)"
  by (simp add: getArticle_missing reply_def live_def key_of_def truthy_num_def getArticle_def)

theorem getArticle_missing_status_witness:
  "path_id ''/articles/999'' = Some (Num 999) \<and>
   live (articles (fst (exec listing_ops database0))) (Num 999) = None \<and> truthy_num (Num 999) \<and>
   getArticle (Num 999) (fst (exec listing_ops database0)) =
     (fst (exec listing_ops database0), \<lparr>status = 404, payload = None\<rparr>) \<and>
   live (articles (fst (exec listing_ops database0))) (Num 2) = None \<and> truthy_num (Num 2) \<and>
   getArticle (Num 2) (fst (exec listing_ops database0)) =
     (fst (exec listing_ops database0), \<lparr>status = 404, payload = None\<rparr>) \<and>
   path_id ''/articles/abc'' = Some NaN \<and>
   live (articles (fst (exec listing_ops database0))) NaN = None \<and> \<not> truthy_num NaN \<and>
   getArticle NaN (fst (exec listing_ops database0)) =
     (fst (exec listing_ops database0), \<lparr>status = 400, payload = None\<rparr>)"
proof -
  let ?db = "fst (exec listing_ops database0)"
  have a: "live (articles ?db) (Num 999) = None \<and> truthy_num (Num 999)"
    and b: "live (articles ?db) (Num 2) = None \<and> truthy_num (Num 2)"
    and c: "live (articles ?db) NaN = None \<and> \<not> truthy_num NaN"
    unfolding listing_db by (simp_all add: live_def live_at_def key_of_def truthy_num_def)
  from getArticle_missing_status [of ?db "Num 999"] a
  have 1: "getArticle (Num 999) ?db = (?db, \<lparr>status = 404, payload = None\<rparr>)" by blast
  from getArticle_missing_status [of ?db "Num 2"] b
  have 2: "getArticle (Num 2) ?db = (?db, \<lparr>status = 404, payload = None\<rparr>)" by blast
  from getArticle_missing_status [of ?db NaN] c
  have 3: "getArticle NaN ?db = (?db, \<lparr>status = 400, payload = None\<rparr>)" by blast
  from a b c 1 2 3 path_id_examples show ?thesis by simp
qed

text \<open>
  After Alice's article got a comment, \<^verbatim>\<open>getArticle\<close> on it leaves the stored article
  with a \<^verbatim>\<open>comments\<close> property that refers to the comment.
\<close>

theorem getArticle_stores_comments_counterexample:
  "getArticle (Num 1) (fst (exec commented_ops database0)) =
     ((fst (exec commented_ops database0))
        \<lparr>articles := [(1, Some \<lparr>upvotedBy = [], downvotedBy = [], ident = 1, username = ''alice'',
                   title = ''T1'', url = ''http://x'', commentIds = [1],
                   a_comments = Some [Some 1]\<rparr>)]\<rparr>,
      \<lparr>status = 200,
       payload = Some (ArticleBody \<lparr>upvotedBy = [], downvotedBy = [], ident = 1, username = ''alice'',
                   title = ''T1'', url = ''http://x'', commentIds = [1],
                   a_comments = Some [Some 1]\<rparr>)\<rparr>)"
  unfolding commented_db by (simp add: getArticle_def live_def live_at_def key_of_def reply_with_def Let_def)

text \<open>
  C9, amended. \<^verbatim>\<open>getArticle\<close> on a live article assigns the \<^verbatim>\<open>comments\<close> property
  of the stored article itself: the record in the database afterwards is the record in the
  response, with \<^verbatim>\<open>comments\<close> set to the references read through its \<^verbatim>\<open>commentIds\<close>.
  An article is created and stored without the property, and in every state of the
  database no operation other than \<^verbatim>\<open>getArticle\<close> changes it on an article that stays
  live.
\<close>

theorem getArticle_stores_comments:
  "(\<forall>k found. live (articles db) idn = Some (k, found) \<longrightarrow>
      (\<exists>a. getArticle idn db =
              (db\<lparr>articles := AList.update k (Some a) (articles db)\<rparr>,
               \<lparr>status = 200, payload = Some (ArticleBody a)\<rparr>) \<and>
            a = found\<lparr>a_comments := Some (map (\<lambda>commentId. map_option (\<lambda>c. commentId)
                        (live_at (comments db) commentId)) (commentIds found))\<rparr>)) \<and>
   (\<forall>request db1 r a. createArticle request db = (db1, r) \<and> payload r = Some (ArticleBody a)
       \<longrightarrow> a_comments a = None \<and> live_at (articles db1) (ident a) = Some a) \<and>
   (\<forall>x db1 r k a a1. reachable db \<and> step x db = Inr (db1, r) \<and> (\<forall>i. x \<noteq> GetArticle i) \<and>
       live_at (articles db) k = Some a \<and> live_at (articles db1) k = Some a1
       \<longrightarrow> a_comments a1 = a_comments a)"
proof (intro conjI allI impI)
  fix k found
  assume "live (articles db) idn = Some (k, found)"
  then show "\<exists>a. getArticle idn db =
              (db\<lparr>articles := AList.update k (Some a) (articles db)\<rparr>,
               \<lparr>status = 200, payload = Some (ArticleBody a)\<rparr>) \<and>
            a = found\<lparr>a_comments := Some (map (\<lambda>commentId. map_option (\<lambda>c. commentId)
                        (live_at (comments db) commentId)) (commentIds found))\<rparr>"
    by (simp add: getArticle_found reply_with_def)
next
  fix request db1 r a
  assume c: "createArticle request db = (db1, r) \<and> payload r = Some (ArticleBody a)"
  then show "a_comments a = None" and "live_at (articles db1) (ident a) = Some a"
    by (auto simp: reply_def reply_with_def dest!: createArticle_shape)
next
  fix x db1 r k a a1
  assume "reachable db \<and> step x db = Inr (db1, r) \<and> (\<forall>i. x \<noteq> GetArticle i) \<and>
       live_at (articles db) k = Some a \<and> live_at (articles db1) k = Some a1"
  then show "a_comments a1 = a_comments a"
    using step_a_comments reachable_ids_inv by blast
qed

theorem getArticle_stores_comments_witness:
  "reachable (fst (exec commented_ops database0)) \<and>
   live (articles (fst (exec commented_ops database0))) (Num 1) =
     Some (1, \<lparr>upvotedBy = [], downvotedBy = [], ident = 1, username = ''alice'', title = ''T1'',
               url = ''http://x'', commentIds = [1], a_comments = None\<rparr>) \<and>
   (\<exists>a. getArticle (Num 1) (fst (exec commented_ops database0)) =
           ((fst (exec commented_ops database0))\<lparr>articles := [(1, Some a)]\<rparr>,
            \<lparr>status = 200, payload = Some (ArticleBody a)\<rparr>) \<and>
         a_comments a = Some [Some 1]) \<and>
   (\<exists>db1 r a1. step (UpvoteArticle (Num 1) (user_request ''alice''))
                  (fst (exec commented_ops database0)) = Inr (db1, r) \<and>
      live_at (articles db1) 1 = Some a1 \<and> a_comments a1 = None)"
proof -
  let ?db = "fst (exec commented_ops database0)"
  let ?found = "\<lparr>upvotedBy = [], downvotedBy = [], ident = 1, username = ''alice'', title = ''T1'',
               url = ''http://x'', commentIds = [1], a_comments = None\<rparr>"
  let ?x = "UpvoteArticle (Num 1) (user_request ''alice'')"
  let ?a1 = "?found\<lparr>upvotedBy := [Str ''alice'']\<rparr>"
  let ?db1 = "?db\<lparr>articles := [(1, Some ?a1)]\<rparr>"
  have r: "reachable ?db" by (rule reachable_exec [OF reachable.initial])
  have l: "live (articles ?db) (Num 1) = Some (1, ?found)"
    unfolding commented_db by (simp add: live_def live_at_def key_of_def)
  from getArticle_stores_comments [of ?db "Num 1", THEN conjunct1, rule_format, OF l]
  obtain a where g: "getArticle (Num 1) ?db =
        (?db\<lparr>articles := AList.update 1 (Some a) (articles ?db)\<rparr>,
         \<lparr>status = 200, payload = Some (ArticleBody a)\<rparr>)"
    and a: "a = ?found\<lparr>a_comments := Some (map (\<lambda>commentId. map_option (\<lambda>c. commentId)
                        (live_at (comments ?db) commentId)) (commentIds ?found))\<rparr>"
    by blast
  have u: "AList.update 1 (Some a) (articles ?db) = [(1, Some a)]"
    unfolding commented_db by simp
  from a have c: "a_comments a = Some [Some 1]"
    unfolding commented_db by (simp add: live_at_def)
  have s: "step ?x ?db = Inr (?db1, reply_with 200 (ArticleBody ?a1))"
    unfolding commented_db by (simp add: handler_defs value_defs upvote_def)
  have la: "live_at (articles ?db) 1 = Some ?found"
    unfolding commented_db by (simp add: live_at_def)
  have la1: "live_at (articles ?db1) 1 = Some ?a1"
    by (simp add: live_at_def)
  have nx: "\<forall>i. ?x \<noteq> GetArticle i" by simp
  from getArticle_stores_comments [of ?db "Num 1", THEN conjunct2, THEN conjunct2, rule_format,
      OF conjI [OF r conjI [OF s conjI [OF nx conjI [OF la la1]]]]]
  have k: "a_comments ?a1 = None" by simp
  show ?thesis
  proof (intro conjI exI)
    show "reachable ?db" by (rule r)
    show "live (articles ?db) (Num 1) = Some (1, ?found)" by (rule l)
    show "getArticle (Num 1) ?db =
        (?db\<lparr>articles := [(1, Some a)]\<rparr>, \<lparr>status = 200, payload = Some (ArticleBody a)\<rparr>)"
      using g u by simp
    show "a_comments a = Some [Some 1]" by (rule c)
    show "step ?x ?db = Inr (?db1, reply_with 200 (ArticleBody ?a1))" by (rule s)
    show "live_at (articles ?db1) 1 = Some ?a1" by (rule la1)
    show "a_comments ?a1 = None" by (rule k)
  qed
qed

subsection \<open>Frame of the vote handlers\<close>

text \<open>
  C10. For a live article (or comment) and a username of an existing user,
  \<^verbatim>\<open>upvoteArticle\<close> and \<^verbatim>\<open>downvoteArticle\<close> (\<^verbatim>\<open>upvoteComment\<close> and
  \<^verbatim>\<open>downvoteComment\<close>) answer 200 and change nothing but the two vote lists of that one
  record: its other fields, every other article and comment, the users and both counters
  are as before.
\<close>

theorem vote_handlers_frame:
  "(\<forall>k e voter. live (articles db) idn = Some (k, e) \<and>
        map_of (users db) (prop_key (request_username request)) = Some voter \<longrightarrow>
      article_frame k e db (fst (upvoteArticle idn request db)) \<and>
      article_frame k e db (fst (downvoteArticle idn request db)) \<and>
      status (snd (upvoteArticle idn request db)) = 200 \<and>
      status (snd (downvoteArticle idn request db)) = 200) \<and>
   (\<forall>k c voter. live (comments db) idn = Some (k, c) \<and>
        map_of (users db) (prop_key (request_username request)) = Some voter \<longrightarrow>
      comment_frame k c db (fst (upvoteComment idn request db)) \<and>
      comment_frame k c db (fst (downvoteComment idn request db)) \<and>
      status (snd (upvoteComment idn request db)) = 200 \<and>
      status (snd (downvoteComment idn request db)) = 200)"
proof (intro conjI allI impI)
  fix k e voter
  assume h: "live (articles db) idn = Some (k, e) \<and>
        map_of (users db) (prop_key (request_username request)) = Some voter"
  then have l: "live_at (articles db) k = Some e" by (auto dest: live_SomeD)
  from h show "article_frame k e db (fst (upvoteArticle idn request db))"
    using frame_update [OF l] by (simp add: upvoteArticle_found article_frame_def votes_put_back)
  from h show "article_frame k e db (fst (downvoteArticle idn request db))"
    using frame_update [OF l] by (simp add: downvoteArticle_found article_frame_def votes_put_back)
  from h show "status (snd (upvoteArticle idn request db)) = 200"
    by (simp add: upvoteArticle_found reply_with_def)
  from h show "status (snd (downvoteArticle idn request db)) = 200"
    by (simp add: downvoteArticle_found reply_with_def)
next
  fix k c voter
  assume h: "live (comments db) idn = Some (k, c) \<and>
        map_of (users db) (prop_key (request_username request)) = Some voter"
  then have l: "live_at (comments db) k = Some c" by (auto dest: live_SomeD)
  from h show "comment_frame k c db (fst (upvoteComment idn request db))"
    using frame_update [OF l] by (simp add: upvoteComment_found comment_frame_def votes_put_back)
  from h show "comment_frame k c db (fst (downvoteComment idn request db))"
    using frame_update [OF l] by (simp add: downvoteComment_found comment_frame_def votes_put_back)
  from h show "status (snd (upvoteComment idn request db)) = 200"
    by (simp add: upvoteComment_found reply_with_def)
  from h show "status (snd (downvoteComment idn request db)) = 200"
    by (simp add: downvoteComment_found reply_with_def)
qed

theorem vote_handlers_frame_witness:
  "live (articles (fst (exec commented_ops database0))) (Num 1) =
     Some (1, \<lparr>upvotedBy = [], downvotedBy = [], ident = 1, username = ''alice'', title = ''T1'',
               url = ''http://x'', commentIds = [1], a_comments = None\<rparr>) \<and>
   live (comments (fst (exec commented_ops database0))) (Num 1) =
     Some (1, \<lparr>upvotedBy = [], downvotedBy = [], ident = 1, username = ''alice'',
               body = ''first'', articleId = 1\<rparr>) \<and>
   map_of (users (fst (exec commented_ops database0))) (prop_key (request_username (user_request ''alice'')))
     = Some \<lparr>u_username = ''alice'', articleIds = [1], u_commentIds = [1]\<rparr> \<and>
   article_frame 1 \<lparr>upvotedBy = [], downvotedBy = [], ident = 1, username = ''alice'', title = ''T1'',
               url = ''http://x'', commentIds = [1], a_comments = None\<rparr>
     (fst (exec commented_ops database0))
     (fst (upvoteArticle (Num 1) (user_request ''alice'') (fst (exec commented_ops database0)))) \<and>
   fst (upvoteArticle (Num 1) (user_request ''alice'') (fst (exec commented_ops database0))) =
     (fst (exec commented_ops database0))
       \<lparr>articles := [(1, Some \<lparr>upvotedBy = [Str ''alice''], downvotedBy = [], ident = 1,
             username = ''alice'', title = ''T1'', url = ''http://x'', commentIds = [1],
             a_comments = None\<rparr>)]\<rparr> \<and>
   comment_frame 1 \<lparr>upvotedBy = [], downvotedBy = [], ident = 1, username = ''alice'',
               body = ''first'', articleId = 1\<rparr>
     (fst (exec commented_ops database0))
     (fst (downvoteComment (Num 1) (user_request ''alice'') (fst (exec commented_ops database0)))) \<and>
   fst (downvoteComment (Num 1) (user_request ''alice'') (fst (exec commented_ops database0))) =
     (fst (exec commented_ops database0))
       \<lparr>comments := [(1, Some \<lparr>upvotedBy = [], downvotedBy = [Str ''alice''], ident = 1,
             username = ''alice'', body = ''first'', articleId = 1\<rparr>)]\<rparr>"
proof -
  let ?db = "fst (exec commented_ops database0)"
  let ?e = "\<lparr>upvotedBy = [], downvotedBy = [], ident = 1, username = ''alice'', title = ''T1'',
               url = ''http://x'', commentIds = [1], a_comments = None\<rparr>"
  let ?c = "\<lparr>upvotedBy = [], downvotedBy = [], ident = 1, username = ''alice'',
               body = ''first'', articleId = 1\<rparr>"
  let ?v = "\<lparr>u_username = ''alice'', articleIds = [1], u_commentIds = [1]\<rparr>"
  have la: "live (articles ?db) (Num 1) = Some (1, ?e)"
    and lc: "live (comments ?db) (Num 1) = Some (1, ?c)"
    and u: "map_of (users ?db) (prop_key (request_username (user_request ''alice''))) = Some ?v"
    unfolding commented_db by (simp_all add: value_defs)
  from vote_handlers_frame [of ?db "Num 1" "user_request ''alice''", THEN conjunct1, rule_format,
      OF conjI [OF la u]]
  have fa: "article_frame 1 ?e ?db (fst (upvoteArticle (Num 1) (user_request ''alice'') ?db))"
    by simp
  from vote_handlers_frame [of ?db "Num 1" "user_request ''alice''", THEN conjunct2, rule_format,
      OF conjI [OF lc u]]
  have fc: "comment_frame 1 ?c ?db (fst (downvoteComment (Num 1) (user_request ''alice'') ?db))"
    by simp
  have ea: "fst (upvoteArticle (Num 1) (user_request ''alice'') ?db) =
     ?db\<lparr>articles := [(1, Some \<lparr>upvotedBy = [Str ''alice''], downvotedBy = [], ident = 1,
             username = ''alice'', title = ''T1'', url = ''http://x'', commentIds = [1],
             a_comments = None\<rparr>)]\<rparr>"
    unfolding commented_db by (simp add: upvoteArticle_def value_defs upvote_def)
  have ec: "fst (downvoteComment (Num 1) (user_request ''alice'') ?db) =
     ?db\<lparr>comments := [(1, Some \<lparr>upvotedBy = [], downvotedBy = [Str ''alice''], ident = 1,
             username = ''alice'', body = ''first'', articleId = 1\<rparr>)]\<rparr>"
    unfolding commented_db by (simp add: downvoteComment_def value_defs downvote_def)
  from la lc u fa fc ea ec show ?thesis by (intro conjI)
qed

end
